theory Spec2Isabelle
  imports Complex_Main "HOL-Library.Log_Nat"
begin

section \<open>Values of the statistical detector\<close>

text \<open>
  A Python \<^verbatim>\<open>float\<close> is a double: a finite value, one of the two infinities, or NaN.
  The finite values are carried as the real number they denote.  The comparison operators
  follow IEEE 754 as Python implements them: every ordered comparison with NaN is false.
\<close>

datatype pyfloat = Finite real | PosInf | NegInf | NaN

fun py_lt :: "pyfloat \<Rightarrow> pyfloat \<Rightarrow> bool" where
  "py_lt NaN _ = False"
| "py_lt _ NaN = False"
| "py_lt (Finite a) (Finite b) = (a < b)"
| "py_lt (Finite a) PosInf = True"
| "py_lt (Finite a) NegInf = False"
| "py_lt PosInf _ = False"
| "py_lt NegInf NegInf = False"
| "py_lt NegInf _ = True"

fun py_eq :: "pyfloat \<Rightarrow> pyfloat \<Rightarrow> bool" where
  "py_eq NaN _ = False"
| "py_eq _ NaN = False"
| "py_eq a b = (a = b)"

definition py_le :: "pyfloat \<Rightarrow> pyfloat \<Rightarrow> bool" where
  "py_le a b = (py_lt a b \<or> py_eq a b)"

definition py_gt :: "pyfloat \<Rightarrow> pyfloat \<Rightarrow> bool" where
  "py_gt a b = py_lt b a"

definition py_ge :: "pyfloat \<Rightarrow> pyfloat \<Rightarrow> bool" where
  "py_ge a b = py_le b a"

text \<open>
  A timezone-aware \<^verbatim>\<open>datetime\<close> is an instant with microsecond resolution; comparison
  and equality of aware datetimes compare the instants.  It is modelled by the number of
  microseconds since the Unix epoch.  \<^verbatim>\<open>datetime\<close> covers the years 1 to 9999.
\<close>

type_synonym datetime = int

definition MIN_SECONDS :: int where
  "MIN_SECONDS = - 62135596800"

definition MAX_SECONDS :: int where
  "MAX_SECONDS = 253402300799"

definition valid_datetime :: "datetime \<Rightarrow> bool" where
  "valid_datetime t = (MIN_SECONDS * 1000000 \<le> t \<and> t < (MAX_SECONDS + 1) * 1000000)"

text \<open>
  Modelled from the spec: \<^verbatim>\<open>TrendType\<close> and \<^verbatim>\<open>DetectorPayload\<close> are declared in
  \<^verbatim>\<open>sentry.statistical_detectors.detector\<close>, which is not among the sources.  The
  enumeration is \<^verbatim>\<open>{Regressed, Improved, Unchanged}\<close>; of the payload the algorithm reads the
  timestamp and the scalar value only.
\<close>

datatype TrendType = Regressed | Improved | Unchanged

record DetectorPayload =
  payload_timestamp :: datetime
  payload_value :: pyfloat

section \<open>MovingAverageCrossOverDetectorState\<close>

record MovingAverageCrossOverDetectorState =
  timestamp :: "datetime option"
  count :: int
  moving_avg_short :: pyfloat
  moving_avg_long :: pyfloat

definition empty :: MovingAverageCrossOverDetectorState where
  "empty = \<lparr>timestamp = None, count = 0, moving_avg_short = Finite 0, moving_avg_long = Finite 0\<rparr>"

section \<open>The built-in conversions of Python\<close>

text \<open>
  Every \<^verbatim>\<open>float\<close> Python computes from an exact value is the nearest double, ties to the
  even significand: true division of integers, \<^verbatim>\<open>float\<close> of an integer and \<^verbatim>\<open>float\<close> of a
  decimal literal are correctly rounded.  \<open>round_to_double p q\<close> is the double nearest to
  \<open>p / q\<close> for \<open>q > 0\<close>: a significand of 53 bits at the binary exponent of \<open>p / q\<close>, the
  exponent not below \<open>-1022\<close> (the subnormal range), and an infinity from \<open>2 ^ 1024\<close> on.
  The two zeros of a double are not distinguished.
\<close>

definition bit_length :: "int \<Rightarrow> int" where
  "bit_length n = int (floorlog 2 (nat \<bar>n\<bar>))"

definition frac_exponent :: "int \<Rightarrow> int \<Rightarrow> int" where
  "frac_exponent p q =
     (let d = bit_length p - bit_length q
      in if q * 2 ^ nat d \<le> p * 2 ^ nat (- d) then d else d - 1)"

definition round_half_even_div :: "int \<Rightarrow> int \<Rightarrow> int" where
  "round_half_even_div n d =
     (let q = n div d; r = n mod d
      in if 2 * r < d then q else if d < 2 * r then q + 1 else if even q then q else q + 1)"

definition DBL_OVERFLOW :: real where
  "DBL_OVERFLOW = 2 ^ 1024"

definition round_to_double :: "int \<Rightarrow> int \<Rightarrow> pyfloat" where
  "round_to_double p q =
     (if p = 0 then Finite 0
      else
        let e = max (frac_exponent \<bar>p\<bar> q) (- 1022);
            m = round_half_even_div (\<bar>p\<bar> * 2 ^ nat (52 - e)) (q * 2 ^ nat (e - 52));
            r = real_of_int (m * 2 ^ nat (e - 52)) / real_of_int (2 ^ nat (52 - e))
        in if DBL_OVERFLOW \<le> r then (if p < 0 then NegInf else PosInf)
           else Finite (if p < 0 then - r else r))"

text \<open>\<^verbatim>\<open>int(x)\<close> of a float truncates towards zero; NaN and the infinities raise.\<close>

datatype error = KeyError string | ValueError | TypeError | OverflowError | RangeError

definition float_trunc :: "real \<Rightarrow> int" where
  "float_trunc x = (if 0 \<le> x then \<lfloor>x\<rfloor> else \<lceil>x\<rceil>)"

definition int_of_float :: "pyfloat \<Rightarrow> error + int" where
  "int_of_float x =
     (case x of Finite r \<Rightarrow> Inr (float_trunc r) | NaN \<Rightarrow> Inl ValueError | _ \<Rightarrow> Inl OverflowError)"

text \<open>\<^verbatim>\<open>float(n)\<close> of an integer raises \<^verbatim>\<open>OverflowError\<close> where the nearest double is infinite.\<close>

definition float_of_int :: "int \<Rightarrow> error + pyfloat" where
  "float_of_int n =
     (case round_to_double n 1 of Finite r \<Rightarrow> Inr (Finite r) | _ \<Rightarrow> Inl OverflowError)"

text \<open>
  A string is a list of characters with codes below 256: a \<^verbatim>\<open>bytes\<close> value, or a
  \<^verbatim>\<open>str\<close> of such code points.  \<^verbatim>\<open>int\<close> and \<^verbatim>\<open>float\<close> strip white space at both
  ends (for \<^verbatim>\<open>str\<close> also the code points 133 and 160), read one optional sign and then the
  digits, where one underscore may stand between two digits.  \<^verbatim>\<open>int\<close> refuses a literal of
  more than 4300 digits.
\<close>

definition is_digit :: "char \<Rightarrow> bool" where
  "is_digit c = ((48::nat) \<le> of_char c \<and> of_char c \<le> (57::nat))"

definition digit_value :: "char \<Rightarrow> nat" where
  "digit_value c = of_char c - 48"

definition bytes_space :: "char \<Rightarrow> bool" where
  "bytes_space c = (of_char c \<in> {9, 10, 11, 12, 13, 32 :: nat})"

definition str_space :: "char \<Rightarrow> bool" where
  "str_space c = (of_char c \<in> {9, 10, 11, 12, 13, 32, 133, 160 :: nat})"

definition strip :: "(char \<Rightarrow> bool) \<Rightarrow> string \<Rightarrow> string" where
  "strip sp s = rev (dropWhile sp (rev (dropWhile sp s)))"

definition split_sign :: "string \<Rightarrow> bool \<times> string" where
  "split_sign s =
     (case s of
        [] \<Rightarrow> (False, s)
      | c # r \<Rightarrow> if c = CHR ''-'' then (True, r) else if c = CHR ''+'' then (False, r) else (False, s))"

fun digits_value :: "string \<Rightarrow> nat \<Rightarrow> nat option" where
  "digits_value [] acc = Some acc"
| "digits_value (c # cs) acc =
     (if is_digit c then digits_value cs (acc * 10 + digit_value c)
      else if c = CHR ''_'' \<and> cs \<noteq> [] \<and> is_digit (hd cs) then digits_value cs acc
      else None)"

definition digitpart :: "string \<Rightarrow> nat option" where
  "digitpart s = (if s \<noteq> [] \<and> is_digit (hd s) then digits_value s 0 else None)"

definition count_digits :: "string \<Rightarrow> nat" where
  "count_digits s = length (filter is_digit s)"

definition int_of_literal :: "(char \<Rightarrow> bool) \<Rightarrow> string \<Rightarrow> error + int" where
  "int_of_literal sp s =
     (case split_sign (strip sp s) of
        (neg, body) \<Rightarrow>
          (case digitpart body of
             None \<Rightarrow> Inl ValueError
           | Some n \<Rightarrow>
               if 4300 < count_digits body then Inl ValueError
               else Inr (if neg then - int n else int n)))"

definition to_lower :: "char \<Rightarrow> char" where
  "to_lower c =
     (if (65::nat) \<le> of_char c \<and> of_char c \<le> (90::nat) then char_of (of_char c + (32::nat)) else c)"

definition digit_or_underscore :: "char \<Rightarrow> bool" where
  "digit_or_underscore c = (is_digit c \<or> c = CHR ''_'')"

definition optional_digitpart :: "string \<Rightarrow> nat option" where
  "optional_digitpart s = (if s = [] then Some 0 else digitpart s)"

definition exponent_part :: "string \<Rightarrow> int option" where
  "exponent_part s =
     (case s of
        [] \<Rightarrow> Some 0
      | c # r \<Rightarrow>
          if c = CHR ''e'' \<or> c = CHR ''E'' then
            (case split_sign r of
               (neg, ds) \<Rightarrow> map_option (\<lambda>n. if neg then - int n else int n) (digitpart ds))
          else None)"

text \<open>A decimal literal \<open>i.f e x\<close> as an integer and a power of ten: its value is \<open>m * 10 ^ e\<close>.\<close>

definition decimal_parts :: "string \<Rightarrow> (nat \<times> int) option" where
  "decimal_parts s =
     (let ip = takeWhile digit_or_underscore s;
          r1 = dropWhile digit_or_underscore s;
          fp = (case r1 of [] \<Rightarrow> [] | c # r \<Rightarrow>
                  if c = CHR ''.'' then takeWhile digit_or_underscore r else []);
          r2 = (case r1 of [] \<Rightarrow> [] | c # r \<Rightarrow>
                  if c = CHR ''.'' then dropWhile digit_or_underscore r else r1)
      in if ip = [] \<and> fp = [] then None
         else
           (case (optional_digitpart ip, optional_digitpart fp, exponent_part r2) of
              (Some i, Some f, Some x) \<Rightarrow>
                Some (i * 10 ^ count_digits fp + f, x - int (count_digits fp))
            | _ \<Rightarrow> None))"

definition float_neg :: "pyfloat \<Rightarrow> pyfloat" where
  "float_neg x =
     (case x of Finite r \<Rightarrow> Finite (- r) | PosInf \<Rightarrow> NegInf | NegInf \<Rightarrow> PosInf | NaN \<Rightarrow> NaN)"

definition float_of_literal :: "(char \<Rightarrow> bool) \<Rightarrow> string \<Rightarrow> error + pyfloat" where
  "float_of_literal sp s =
     (case split_sign (strip sp s) of
        (neg, body) \<Rightarrow>
          if map to_lower body = ''inf'' \<or> map to_lower body = ''infinity''
          then Inr (if neg then NegInf else PosInf)
          else if map to_lower body = ''nan'' then Inr NaN
          else
            (case decimal_parts body of
               None \<Rightarrow> Inl ValueError
             | Some (m, e) \<Rightarrow>
                 let x = round_to_double (int m * 10 ^ nat e) (10 ^ nat (- e))
                 in Inr (if neg then float_neg x else x)))"

text \<open>
  The values of the Redis mapping: \<^verbatim>\<open>bytes | float | int | str\<close>, which \<^verbatim>\<open>to_redis_dict\<close>
  writes, and \<^verbatim>\<open>None\<close>, which the mapping that \<^verbatim>\<open>from_redis_dict\<close> reads may hold since
  its parameter is typed \<^verbatim>\<open>Any\<close>.  \<^verbatim>\<open>int(v)\<close> and \<^verbatim>\<open>float(v)\<close> on them; both raise
  \<^verbatim>\<open>TypeError\<close> for \<^verbatim>\<open>None\<close>.
\<close>

datatype redis_value =
  NoneValue | IntValue int | FloatValue pyfloat | StrValue string | BytesValue string

definition py_int :: "redis_value \<Rightarrow> error + int" where
  "py_int v =
     (case v of
        NoneValue \<Rightarrow> Inl TypeError
      | IntValue n \<Rightarrow> Inr n
      | FloatValue x \<Rightarrow> int_of_float x
      | StrValue s \<Rightarrow> int_of_literal str_space s
      | BytesValue s \<Rightarrow> int_of_literal bytes_space s)"

definition py_float :: "redis_value \<Rightarrow> error + pyfloat" where
  "py_float v =
     (case v of
        NoneValue \<Rightarrow> Inl TypeError
      | IntValue n \<Rightarrow> float_of_int n
      | FloatValue x \<Rightarrow> Inr x
      | StrValue s \<Rightarrow> float_of_literal str_space s
      | BytesValue s \<Rightarrow> float_of_literal bytes_space s)"

text \<open>
  \<^verbatim>\<open>datetime.timestamp()\<close> of an aware datetime is the true division of its microseconds
  since the epoch by \<open>10 ^ 6\<close>.  \<^verbatim>\<open>datetime.fromtimestamp(n, timezone.utc)\<close> raises for a
  second outside the years 1 to 9999: \<^verbatim>\<open>ValueError\<close>, \<^verbatim>\<open>OSError\<close> or \<^verbatim>\<open>OverflowError\<close>
  with the magnitude and the platform, here the one error \<open>RangeError\<close>.
\<close>

definition datetime_timestamp :: "datetime \<Rightarrow> pyfloat" where
  "datetime_timestamp t = round_to_double t 1000000"

definition datetime_fromtimestamp :: "int \<Rightarrow> error + datetime" where
  "datetime_fromtimestamp n =
     (if MIN_SECONDS \<le> n \<and> n \<le> MAX_SECONDS then Inr (n * 1000000) else Inl RangeError)"

section \<open>Serialization of the state\<close>

type_synonym redis_dict = "string \<Rightarrow> redis_value option"

definition FIELD_TIMESTAMP :: string where
  "FIELD_TIMESTAMP = ''T''"

definition FIELD_COUNT :: string where
  "FIELD_COUNT = ''C''"

definition FIELD_MOVING_AVG_SHORT :: string where
  "FIELD_MOVING_AVG_SHORT = ''S''"

definition FIELD_MOVING_AVG_LONG :: string where
  "FIELD_MOVING_AVG_LONG = ''L''"

text \<open>
  \<^verbatim>\<open>to_redis_dict\<close>.  The only call of it that can raise is \<^verbatim>\<open>int\<close> of the float timestamp.
\<close>

definition to_redis_dict :: "MovingAverageCrossOverDetectorState \<Rightarrow> error + redis_dict" where
  "to_redis_dict self =
     (let d = [FIELD_COUNT \<mapsto> IntValue (count self),
               FIELD_MOVING_AVG_SHORT \<mapsto> FloatValue (moving_avg_short self),
               FIELD_MOVING_AVG_LONG \<mapsto> FloatValue (moving_avg_long self)]
      in case timestamp self of
           None \<Rightarrow> Inr d
         | Some t \<Rightarrow>
             (case int_of_float (datetime_timestamp t) of
                Inl e \<Rightarrow> Inl e
              | Inr n \<Rightarrow> Inr (d(FIELD_TIMESTAMP \<mapsto> IntValue n))))"

text \<open>
  \<^verbatim>\<open>data[key]\<close> raises \<^verbatim>\<open>KeyError\<close> for a missing key; \<^verbatim>\<open>data.get(key)\<close> gives
  \<^verbatim>\<open>None\<close> for it.
\<close>

definition getitem :: "redis_dict \<Rightarrow> string \<Rightarrow> error + redis_value" where
  "getitem data key = (case data key of None \<Rightarrow> Inl (KeyError key) | Some v \<Rightarrow> Inr v)"

definition dict_get :: "redis_dict \<Rightarrow> string \<Rightarrow> redis_value" where
  "dict_get data key = (case data key of None \<Rightarrow> NoneValue | Some v \<Rightarrow> v)"

definition bind :: "error + 'a \<Rightarrow> ('a \<Rightarrow> error + 'b) \<Rightarrow> error + 'b" where
  "bind x f = (case x of Inl e \<Rightarrow> Inl e | Inr v \<Rightarrow> f v)"

definition from_redis_dict :: "redis_dict \<Rightarrow> error + MovingAverageCrossOverDetectorState" where
  "from_redis_dict data =
     bind (let ts = dict_get data FIELD_TIMESTAMP
           in if ts = NoneValue then Inr None
              else bind (py_int ts) (\<lambda>n. bind (datetime_fromtimestamp n) (\<lambda>t. Inr (Some t))))
       (\<lambda>timestamp'.
     bind (bind (getitem data FIELD_COUNT) py_int) (\<lambda>count'.
     bind (bind (getitem data FIELD_MOVING_AVG_SHORT) py_float) (\<lambda>moving_avg_short'.
     bind (bind (getitem data FIELD_MOVING_AVG_LONG) py_float) (\<lambda>moving_avg_long'.
       Inr \<lparr>timestamp = timestamp', count = count',
            moving_avg_short = moving_avg_short', moving_avg_long = moving_avg_long'\<rparr>))))"

text \<open>
  A state written by \<^verbatim>\<open>to_redis_dict\<close> and read back by \<^verbatim>\<open>from_redis_dict\<close>.
\<close>

definition round_trip ::
  "MovingAverageCrossOverDetectorState \<Rightarrow> error + MovingAverageCrossOverDetectorState" where
  "round_trip s = bind (to_redis_dict s) from_redis_dict"

text \<open>
  A timestamp of second resolution, and a timestamp truncated to whole seconds: the Unix time
  in seconds with its fraction dropped, that is, rounded towards the epoch.
\<close>

definition second_resolution :: "datetime \<Rightarrow> bool" where
  "second_resolution t = (t mod 1000000 = 0)"

definition truncated_seconds :: "datetime \<Rightarrow> int" where
  "truncated_seconds t = sgn t * (\<bar>t\<bar> div 1000000)"

definition truncate_to_seconds :: "datetime \<Rightarrow> datetime" where
  "truncate_to_seconds t = truncated_seconds t * 1000000"

text \<open>
  What the specification calls a field that is missing or cannot be parsed: the key is absent,
  or the conversion of its value raises.
\<close>

definition raises :: "error + 'a \<Rightarrow> bool" where
  "raises x = (case x of Inl _ \<Rightarrow> True | Inr _ \<Rightarrow> False)"

definition missing_or_unparsable :: "(redis_value \<Rightarrow> error + 'a) \<Rightarrow> redis_value option \<Rightarrow> bool" where
  "missing_or_unparsable conv field =
     (case field of None \<Rightarrow> True | Some v \<Rightarrow> raises (conv v))"

text \<open>
  A timestamp that cannot be parsed: the key holds a value other than \<^verbatim>\<open>None\<close> that
  \<^verbatim>\<open>int\<close> and \<^verbatim>\<open>fromtimestamp\<close> do not turn into a datetime.
\<close>

definition timestamp_unparsable :: "redis_value option \<Rightarrow> bool" where
  "timestamp_unparsable field =
     (case field of
        None \<Rightarrow> False
      | Some v \<Rightarrow> v \<noteq> NoneValue \<and> raises (bind (py_int v) datetime_fromtimestamp))"

text \<open>
  The exception a reader of the four fields is expected to raise: that of the first operation
  that fails, in the order timestamp, count, short average, long average.  For the count and
  the averages a missing key is a \<^verbatim>\<open>KeyError\<close> and a present value fails with the exception
  of its conversion; for the timestamp a missing key and the value \<^verbatim>\<open>None\<close> do not fail.
\<close>

definition field_error :: "(redis_value \<Rightarrow> error + 'a) \<Rightarrow> string \<Rightarrow> redis_dict \<Rightarrow> error option" where
  "field_error conv key data =
     (case data key of
        None \<Rightarrow> Some (KeyError key)
      | Some v \<Rightarrow> (case conv v of Inl e \<Rightarrow> Some e | Inr _ \<Rightarrow> None))"

definition timestamp_error :: "redis_dict \<Rightarrow> error option" where
  "timestamp_error data =
     (case data FIELD_TIMESTAMP of
        None \<Rightarrow> None
      | Some v \<Rightarrow>
          if v = NoneValue then None
          else
            (case py_int v of
               Inl e \<Rightarrow> Some e
             | Inr n \<Rightarrow> (case datetime_fromtimestamp n of Inl e \<Rightarrow> Some e | Inr _ \<Rightarrow> None)))"

definition first_failure :: "redis_dict \<Rightarrow> error option" where
  "first_failure data =
     (case timestamp_error data of
        Some e \<Rightarrow> Some e
      | None \<Rightarrow>
          (case field_error py_int FIELD_COUNT data of
             Some e \<Rightarrow> Some e
           | None \<Rightarrow>
               (case field_error py_float FIELD_MOVING_AVG_SHORT data of
                  Some e \<Rightarrow> Some e
                | None \<Rightarrow> field_error py_float FIELD_MOVING_AVG_LONG data)))"

text \<open>States and mappings at which the theorems on serialization are evaluated.\<close>

definition whole_second_state :: MovingAverageCrossOverDetectorState where
  "whole_second_state =
     \<lparr>timestamp = Some 1700000000000000, count = 5,
      moving_avg_short = Finite 1.5, moving_avg_long = Finite 2\<rparr>"

definition early_state :: MovingAverageCrossOverDetectorState where
  "early_state =
     \<lparr>timestamp = Some (- 1500000), count = 5,
      moving_avg_short = Finite 1.5, moving_avg_long = Finite 2\<rparr>"

definition sub_second_state :: MovingAverageCrossOverDetectorState where
  "sub_second_state =
     \<lparr>timestamp = Some 32503680000999999, count = 1,
      moving_avg_short = Finite 1, moving_avg_long = Finite 1\<rparr>"

definition string_dict :: redis_dict where
  "string_dict =
     [FIELD_COUNT \<mapsto> StrValue ''5'', FIELD_MOVING_AVG_SHORT \<mapsto> StrValue ''1.5'',
      FIELD_MOVING_AVG_LONG \<mapsto> StrValue ''2.0'']"

definition mixed_dict :: redis_dict where
  "mixed_dict =
     [FIELD_TIMESTAMP \<mapsto> BytesValue ''1700000000'', FIELD_COUNT \<mapsto> IntValue 5,
      FIELD_MOVING_AVG_SHORT \<mapsto> FloatValue (Finite 1.5), FIELD_MOVING_AVG_LONG \<mapsto> IntValue 2]"

definition bad_timestamp_dict :: redis_dict where
  "bad_timestamp_dict = string_dict(FIELD_TIMESTAMP \<mapsto> StrValue ''abc'')"

definition none_timestamp_dict :: redis_dict where
  "none_timestamp_dict = string_dict(FIELD_TIMESTAMP \<mapsto> NoneValue)"

definition missing_short_dict :: redis_dict where
  "missing_short_dict =
     [FIELD_COUNT \<mapsto> StrValue ''5'', FIELD_MOVING_AVG_LONG \<mapsto> StrValue ''2.0'']"

definition missing_long_dict :: redis_dict where
  "missing_long_dict =
     [FIELD_COUNT \<mapsto> StrValue ''5'', FIELD_MOVING_AVG_SHORT \<mapsto> StrValue ''1.5'']"

definition equal_averages_dict :: redis_dict where
  "equal_averages_dict =
     [FIELD_COUNT \<mapsto> StrValue ''5'', FIELD_MOVING_AVG_SHORT \<mapsto> StrValue ''1.5'',
      FIELD_MOVING_AVG_LONG \<mapsto> StrValue ''1.5'']"

section \<open>MovingAverageCrossOverDetector\<close>

text \<open>
  Modelled from the spec: the class \<^verbatim>\<open>MovingAverage\<close> of \<^verbatim>\<open>sentry.utils.math\<close> is not
  among the sources.  The detector uses three members of it: \<^verbatim>\<open>set(value, count)\<close>,
  \<^verbatim>\<open>update(value)\<close> and the attribute \<^verbatim>\<open>value\<close>.  An implementation is taken as a parameter:
  the instance a factory returns and the three members as functions on the instance.
\<close>

record 'm MovingAverage =
  ma_new :: 'm
  ma_set :: "pyfloat \<Rightarrow> int \<Rightarrow> 'm \<Rightarrow> 'm"
  ma_update :: "pyfloat \<Rightarrow> 'm \<Rightarrow> 'm"
  ma_value :: "'m \<Rightarrow> pyfloat"

record ('a, 'b) MovingAverageCrossOverDetectorConfig =
  min_data_points :: int
  short_moving_avg_factory :: "'a MovingAverage"
  long_moving_avg_factory :: "'b MovingAverage"

record ('a, 'b) MovingAverageCrossOverDetector =
  self_moving_avg_short :: 'a
  self_moving_avg_long :: 'b
  self_timestamp :: "datetime option"
  self_count :: int
  self_config :: "('a, 'b) MovingAverageCrossOverDetectorConfig"

definition init ::
  "MovingAverageCrossOverDetectorState \<Rightarrow> ('a, 'b) MovingAverageCrossOverDetectorConfig
    \<Rightarrow> ('a, 'b) MovingAverageCrossOverDetector" where
  "init st config =
     \<lparr>self_moving_avg_short =
        ma_set (short_moving_avg_factory config) (moving_avg_short st) (count st)
          (ma_new (short_moving_avg_factory config)),
      self_moving_avg_long =
        ma_set (long_moving_avg_factory config) (moving_avg_long st) (count st)
          (ma_new (long_moving_avg_factory config)),
      self_timestamp = timestamp st,
      self_count = count st,
      self_config = config\<rparr>"

text \<open>The values the two averages of a detector currently report.\<close>

definition short_value :: "('a, 'b) MovingAverageCrossOverDetector \<Rightarrow> pyfloat" where
  "short_value d = ma_value (short_moving_avg_factory (self_config d)) (self_moving_avg_short d)"

definition long_value :: "('a, 'b) MovingAverageCrossOverDetector \<Rightarrow> pyfloat" where
  "long_value d = ma_value (long_moving_avg_factory (self_config d)) (self_moving_avg_long d)"

text \<open>The guard at the head of \<^verbatim>\<open>update\<close>.\<close>

definition out_of_order :: "('a, 'b) MovingAverageCrossOverDetector \<Rightarrow> DetectorPayload \<Rightarrow> bool" where
  "out_of_order d payload =
     (case self_timestamp d of None \<Rightarrow> False | Some t \<Rightarrow> t > payload_timestamp payload)"

text \<open>
  \<^verbatim>\<open>update\<close> returns the optional trend together with the detector after the call.
\<close>

definition update ::
  "('a, 'b) MovingAverageCrossOverDetector \<Rightarrow> DetectorPayload
    \<Rightarrow> TrendType option \<times> ('a, 'b) MovingAverageCrossOverDetector" where
  "update d payload =
     (if out_of_order d payload then (None, d)
      else
        let old_moving_avg_short = short_value d;
            old_moving_avg_long = long_value d;
            d' = d\<lparr>self_moving_avg_short :=
                      ma_update (short_moving_avg_factory (self_config d)) (payload_value payload)
                        (self_moving_avg_short d),
                    self_moving_avg_long :=
                      ma_update (long_moving_avg_factory (self_config d)) (payload_value payload)
                        (self_moving_avg_long d),
                    self_timestamp := Some (payload_timestamp payload),
                    self_count := self_count d + 1\<rparr>;
            stablized = (self_count d' > min_data_points (self_config d'))
        in if stablized \<and> py_gt (short_value d') (long_value d')
                \<and> py_le old_moving_avg_short old_moving_avg_long
           then (Some Regressed, d')
           else if stablized \<and> py_lt (short_value d') (long_value d')
                \<and> py_ge old_moving_avg_short old_moving_avg_long
           then (Some Improved, d')
           else (Some Unchanged, d'))"

text \<open>
  The property \<^verbatim>\<open>state\<close>.  As in the source, both average fields are read from
  \<^verbatim>\<open>self.moving_avg_short.value\<close>.
\<close>

definition state :: "('a, 'b) MovingAverageCrossOverDetector \<Rightarrow> MovingAverageCrossOverDetectorState" where
  "state d =
     \<lparr>timestamp = self_timestamp d,
      count = self_count d,
      moving_avg_short = short_value d,
      moving_avg_long = short_value d\<rparr>"

text \<open>A caller's sequence of \<^verbatim>\<open>update\<close> calls on one detector, with the result of each call.\<close>

fun feed ::
  "('a, 'b) MovingAverageCrossOverDetector \<Rightarrow> DetectorPayload list
    \<Rightarrow> TrendType option list \<times> ('a, 'b) MovingAverageCrossOverDetector" where
  "feed d [] = ([], d)"
| "feed d (p # ps) =
     (case update d p of (r, d') \<Rightarrow> (case feed d' ps of (rs, d'') \<Rightarrow> (r # rs, d'')))"

text \<open>The number of calls of a sequence that were accepted.\<close>

definition accepted :: "TrendType option list \<Rightarrow> nat" where
  "accepted rs = length (filter (\<lambda>r. r \<noteq> None) rs)"

section \<open>The decision of the specification\<close>

text \<open>
  The decision of step 6 of \<^verbatim>\<open>update\<close> in the words of the specification: if
  \<open>new_short > new_long\<close> and \<open>old_short \<le> old_long\<close>, \<^verbatim>\<open>Regressed\<close>; else if
  \<open>new_short < new_long\<close> and \<open>old_short \<ge> old_long\<close>, \<^verbatim>\<open>Improved\<close>; else
  \<^verbatim>\<open>Unchanged\<close>.
\<close>

definition spec_decision :: "pyfloat \<Rightarrow> pyfloat \<Rightarrow> pyfloat \<Rightarrow> pyfloat \<Rightarrow> TrendType" where
  "spec_decision old_short old_long new_short new_long =
     (if py_gt new_short new_long \<and> py_le old_short old_long then Regressed
      else if py_lt new_short new_long \<and> py_ge old_short old_long then Improved
      else Unchanged)"

section \<open>Two moving averages and a scenario\<close>

text \<open>
  Modelled from the spec: the moving averages of the crossover scenario of the specification,
  which are implementations of the missing class \<^verbatim>\<open>MovingAverage\<close>.  The short one is the
  simple average of the last one sample, so it reports the latest sample.  The long one is
  the cumulative mean: it holds the mean and the number of samples it has absorbed, and
  \<^verbatim>\<open>set(value, count)\<close> makes it the mean \<^verbatim>\<open>value\<close> of \<^verbatim>\<open>count\<close> samples.  The
  specification defines a moving average on finite inputs only; here a non-finite input or a
  negative count gives NaN.  The arithmetic of the mean is exact.
\<close>

definition py_mean_step :: "pyfloat \<Rightarrow> int \<Rightarrow> pyfloat \<Rightarrow> pyfloat" where
  "py_mean_step v n x =
     (case (v, x) of
        (Finite a, Finite b) \<Rightarrow> if 0 \<le> n then Finite ((a * of_int n + b) / of_int (n + 1)) else NaN
      | _ \<Rightarrow> NaN)"

definition latest_sample :: "pyfloat MovingAverage" where
  "latest_sample =
     \<lparr>ma_new = Finite 0, ma_set = (\<lambda>v n m. v), ma_update = (\<lambda>x m. x), ma_value = (\<lambda>m. m)\<rparr>"

definition cumulative_mean :: "(pyfloat \<times> int) MovingAverage" where
  "cumulative_mean =
     \<lparr>ma_new = (Finite 0, 0),
      ma_set = (\<lambda>v n m. (v, n)),
      ma_update = (\<lambda>x m. (py_mean_step (fst m) (snd m) x, snd m + 1)),
      ma_value = fst\<rparr>"

text \<open>
  The configuration of the scenario, with \<^verbatim>\<open>min_data_points = 2\<close>, and the inputs at which
  the theorems below are evaluated: a detector resumed after three samples of value 10, and
  payloads after, at and before its timestamp.
\<close>

definition scenario_config :: "(pyfloat, pyfloat \<times> int) MovingAverageCrossOverDetectorConfig" where
  "scenario_config =
     \<lparr>min_data_points = 2, short_moving_avg_factory = latest_sample,
      long_moving_avg_factory = cumulative_mean\<rparr>"

definition scenario_detector :: "(pyfloat, pyfloat \<times> int) MovingAverageCrossOverDetector" where
  "scenario_detector =
     init \<lparr>timestamp = Some 3000000, count = 3, moving_avg_short = Finite 10,
            moving_avg_long = Finite 10\<rparr> scenario_config"

definition scenario_payload :: DetectorPayload where
  "scenario_payload = \<lparr>payload_timestamp = 4000000, payload_value = Finite 100\<rparr>"

definition late_payload :: DetectorPayload where
  "late_payload = \<lparr>payload_timestamp = 2000000, payload_value = Finite 100\<rparr>"

definition same_time_payload :: DetectorPayload where
  "same_time_payload = \<lparr>payload_timestamp = 3000000, payload_value = Finite 100\<rparr>"

definition warmup_payloads :: "DetectorPayload list" where
  "warmup_payloads =
     [\<lparr>payload_timestamp = 1000000, payload_value = Finite 10\<rparr>,
      \<lparr>payload_timestamp = 2000000, payload_value = Finite 10\<rparr>]"

definition mixed_payloads :: "DetectorPayload list" where
  "mixed_payloads =
     [\<lparr>payload_timestamp = 1000000, payload_value = Finite 10\<rparr>,
      \<lparr>payload_timestamp = 500000, payload_value = Finite 10\<rparr>,
      \<lparr>payload_timestamp = 2000000, payload_value = Finite 10\<rparr>]"

definition regressed_payloads :: "DetectorPayload list" where
  "regressed_payloads =
     [\<lparr>payload_timestamp = 1000000, payload_value = Finite 10\<rparr>,
      \<lparr>payload_timestamp = 2000000, payload_value = Finite 10\<rparr>,
      \<lparr>payload_timestamp = 3000000, payload_value = Finite 10\<rparr>,
      \<lparr>payload_timestamp = 4000000, payload_value = Finite 100\<rparr>]"

section \<open>The nearest double\<close>

lemma bit_length_eqI:
  assumes "2 ^ n \<le> p" and "p < 2 ^ Suc n"
  shows "bit_length p = int (Suc n)"
proof -
  have p: "0 < p"
    using assms(1) by (smt (verit) zero_less_power)
  have lo: "(2::nat) ^ n \<le> nat p"
    using assms(1) p by (simp add: le_nat_iff)
  have hi: "nat p < 2 ^ Suc n"
    using assms(2) p by (simp add: nat_less_iff)
  have "floorlog 2 (nat p) \<le> Suc n"
    using hi by (intro floorlog_leI) simp_all
  moreover have "Suc n \<le> floorlog 2 (nat p)"
    using lo by (intro floorlog_ge_SucI) simp_all
  ultimately show ?thesis
    using p by (simp add: bit_length_def)
qed

lemma bit_length_mult_pow2:
  assumes "0 < q"
  shows "bit_length (q * 2 ^ n) = bit_length q + int n"
proof -
  have "nat \<bar>q * 2 ^ n\<bar> = nat q * 2 ^ n"
    using assms by (simp add: nat_mult_distrib nat_power_eq abs_mult)
  then show ?thesis
    using assms by (simp add: bit_length_def)
qed

lemma bit_length_mono:
  assumes "0 \<le> p" and "p \<le> q"
  shows "bit_length p \<le> bit_length q"
  using assms by (simp add: bit_length_def floorlog_mono)

lemma frac_exponent_less:
  assumes "0 < p" and "0 < q" and "p < q * 2 ^ n"
  shows "frac_exponent p q < int n"
proof -
  have "bit_length p \<le> bit_length (q * 2 ^ n)"
    using assms by (intro bit_length_mono) simp_all
  then have d: "bit_length p - bit_length q \<le> int n"
    using assms(2) by (simp add: bit_length_mult_pow2)
  show ?thesis
  proof (cases "bit_length p - bit_length q = int n")
    case True
    then show ?thesis
      using assms(3) by (simp add: frac_exponent_def Let_def)
  next
    case False
    with d have "bit_length p - bit_length q < int n" by simp
    then show ?thesis
      by (simp add: frac_exponent_def Let_def)
  qed
qed

lemma round_half_even_div_bounds:
  assumes "0 < d"
  shows "2 * (round_half_even_div n d * d) \<le> 2 * n + d"
    and "2 * n - d \<le> 2 * (round_half_even_div n d * d)"
proof -
  have n: "n = (n div d) * d + n mod d" by simp
  have r: "0 \<le> n mod d" "n mod d < d"
    using assms by simp_all
  define q where "q = n div d"
  define r where "r = n mod d"
  have nq: "n = q * d + r" and r0: "0 \<le> r" and rd: "r < d"
    using n r by (simp_all add: q_def r_def)
  have m: "round_half_even_div n d = q \<and> 2 * r \<le> d \<or> round_half_even_div n d = q + 1 \<and> d \<le> 2 * r"
    by (auto simp: round_half_even_div_def Let_def q_def r_def)
  show "2 * (round_half_even_div n d * d) \<le> 2 * n + d"
    using m nq r0 rd by (auto simp: algebra_simps)
  show "2 * n - d \<le> 2 * (round_half_even_div n d * d)"
    using m nq r0 rd by (auto simp: algebra_simps)
qed

lemma round_half_even_div_exact:
  assumes "0 < d"
  shows "round_half_even_div (k * d) d = k"
  using assms by (simp add: round_half_even_div_def Let_def)

lemma round_half_even_div_trunc:
  assumes q: "0 < q" and p: "0 \<le> p" and A: "q < 2 * A"
  shows "round_half_even_div (p * A) q div A = p div q"
proof -
  define m where "m = round_half_even_div (p * A) q"
  define k where "k = p div q"
  have A0: "0 < A" using q A by simp
  have up: "2 * (m * q) \<le> 2 * (p * A) + q" and lo: "2 * (p * A) - q \<le> 2 * (m * q)"
    using round_half_even_div_bounds [OF q, of "p * A"] by (simp_all add: m_def)
  have kq: "k * q \<le> p" and kq1: "p + 1 \<le> (k + 1) * q"
  proof -
    have "p = k * q + p mod q" by (simp add: k_def)
    moreover have "0 \<le> p mod q" "p mod q < q" using q by simp_all
    ultimately show "k * q \<le> p" "p + 1 \<le> (k + 1) * q"
      by (simp_all add: algebra_simps)
  qed
  have m_lt: "m < (k + 1) * A"
  proof (rule ccontr)
    assume "\<not> m < (k + 1) * A"
    then have "(k + 1) * A \<le> m" by simp
    then have "(k + 1) * A * q \<le> m * q"
      using q by (intro mult_right_mono) simp_all
    moreover have "(p + 1) * A \<le> (k + 1) * q * A"
      using kq1 A0 by (intro mult_right_mono) simp_all
    ultimately have "2 * (p * A) + 2 * A \<le> 2 * (m * q)"
      by (simp add: algebra_simps)
    with up A show False by simp
  qed
  have m_ge: "k * A \<le> m"
  proof (rule ccontr)
    assume "\<not> k * A \<le> m"
    then have "m + 1 \<le> k * A" by simp
    then have "(m + 1) * q \<le> k * A * q"
      using q by (intro mult_right_mono) simp_all
    moreover have "k * q * A \<le> p * A"
      using kq A0 by (intro mult_right_mono) simp_all
    ultimately have "2 * (m * q) + 2 * q \<le> 2 * (p * A)"
      by (simp add: algebra_simps)
    with lo q show False by simp
  qed
  have "m div A = k"
  proof (rule int_div_pos_eq)
    show "m = A * k + (m - k * A)" by simp
    show "0 \<le> m - k * A" using m_ge by simp
    show "m - k * A < A" using m_lt by (simp add: algebra_simps)
  qed
  then show ?thesis by (simp add: m_def k_def)
qed

lemma truncate_quotient:
  assumes "0 \<le> m" and "0 < A"
  shows "float_trunc (real_of_int m / real_of_int A) = m div A"
    and "float_trunc (- (real_of_int m / real_of_int A)) = - (m div A)"
proof -
  have nonneg: "0 \<le> real_of_int m / real_of_int A"
    using assms by simp
  show "float_trunc (real_of_int m / real_of_int A) = m div A"
    using nonneg by (simp add: float_trunc_def floor_divide_of_int_eq)
  show "float_trunc (- (real_of_int m / real_of_int A)) = - (m div A)"
  proof (cases "real_of_int m / real_of_int A = 0")
    case True
    then have "m = 0" using assms by simp
    then show ?thesis by (simp add: float_trunc_def)
  next
    case False
    with nonneg have "\<not> 0 \<le> - (real_of_int m / real_of_int A)" by simp
    then show ?thesis
      by (simp add: float_trunc_def ceiling_minus floor_divide_of_int_eq)
  qed
qed

lemma round_to_double_unfold:
  assumes "p \<noteq> 0" and "max (frac_exponent \<bar>p\<bar> q) (- 1022) \<le> 52"
  shows "round_to_double p q =
    (let A = 2 ^ nat (52 - max (frac_exponent \<bar>p\<bar> q) (- 1022));
         r = real_of_int (round_half_even_div (\<bar>p\<bar> * A) q) / real_of_int A
     in if DBL_OVERFLOW \<le> r then (if p < 0 then NegInf else PosInf)
        else Finite (if p < 0 then - r else r))"
proof -
  have "nat (max (frac_exponent \<bar>p\<bar> q) (- 1022) - 52) = 0"
    using assms(2) by simp
  then show ?thesis
    using assms(1) by (simp add: round_to_double_def Let_def)
qed

lemma below_overflow:
  assumes "x < real_of_int (2 ^ 54)"
  shows "\<not> DBL_OVERFLOW \<le> x"
proof -
  have "real_of_int (2 ^ 54) < DBL_OVERFLOW"
    by (simp add: DBL_OVERFLOW_def)
  with assms show ?thesis by simp
qed

lemma round_to_double_small:
  assumes p: "p \<noteq> 0" and q: "0 < q" "q < 2 ^ 20" and bound: "\<bar>p\<bar> < q * 2 ^ 34"
  shows "int_of_float (round_to_double p q) = Inr (sgn p * (\<bar>p\<bar> div q))"
proof -
  define e where "e = max (frac_exponent \<bar>p\<bar> q) (- 1022)"
  define A :: int where "A = 2 ^ nat (52 - e)"
  define m where "m = round_half_even_div (\<bar>p\<bar> * A) q"
  have "frac_exponent \<bar>p\<bar> q < int 34"
    using p q bound by (intro frac_exponent_less) simp_all
  then have e: "e \<le> 33" by (simp add: e_def)
  have "(2::int) ^ 19 \<le> 2 ^ nat (52 - e)"
    using e by (intro power_increasing) simp_all
  then have A: "2 ^ 19 \<le> A" by (simp add: A_def)
  then have A0: "0 < A" by simp
  have qA: "q < 2 * A" using q A by simp
  have k: "m div A = \<bar>p\<bar> div q"
    unfolding m_def using q(1) qA by (intro round_half_even_div_trunc) simp_all
  have "0 \<le> \<bar>p\<bar> div q"
    using q by (simp add: pos_imp_zdiv_nonneg_iff)
  then have "0 \<le> m div A" by (simp add: k)
  then have m0: "0 \<le> m"
    using A0 by (simp add: pos_imp_zdiv_nonneg_iff)
  have "m div A * A + m mod A = m" by (rule div_mult_mod_eq)
  moreover have "m mod A < A" using A0 by simp
  ultimately have "m < m div A * A + A" by linarith
  then have "m < (m div A + 1) * A"
    by (simp add: distrib_right)
  also have "\<dots> \<le> (\<bar>p\<bar> + 1) * A"
  proof -
    have "\<bar>p\<bar> div q \<le> \<bar>p\<bar> div 1"
      using q by (intro zdiv_mono2) simp_all
    then have "\<bar>p\<bar> div q \<le> \<bar>p\<bar>" by simp
    then show ?thesis
      unfolding k using A0 by (intro mult_right_mono) simp_all
  qed
  finally have m_lt: "m < (\<bar>p\<bar> + 1) * A" .
  have "real_of_int m < real_of_int ((\<bar>p\<bar> + 1) * A)"
    using m_lt by (simp only: of_int_less_iff)
  then have "real_of_int m / real_of_int A < real_of_int (\<bar>p\<bar> + 1)"
    using A0 by (simp add: pos_divide_less_eq)
  also have "\<dots> \<le> real_of_int (2 ^ 54)"
  proof -
    have "q * 2 ^ 34 \<le> 2 ^ 20 * (2 ^ 34 :: int)"
      using q by (intro mult_right_mono) simp_all
    with bound have "\<bar>p\<bar> + 1 \<le> (2 ^ 54 :: int)" by simp
    then show ?thesis by (simp only: of_int_le_iff)
  qed
  finally have fin: "\<not> DBL_OVERFLOW \<le> real_of_int m / real_of_int A"
    by (rule below_overflow)
  have "e \<le> 52" using e by simp
  then have rd: "round_to_double p q =
      Finite (if p < 0 then - (real_of_int m / real_of_int A) else real_of_int m / real_of_int A)"
    using round_to_double_unfold [OF p, of q] fin
    unfolding e_def [symmetric] Let_def A_def [symmetric] m_def [symmetric] by simp
  show ?thesis
  proof (cases "p < 0")
    case True
    then show ?thesis
      using truncate_quotient(2) [OF m0 A0] k by (simp add: rd int_of_float_def)
  next
    case False
    with p have "0 < p" by simp
    then show ?thesis
      using truncate_quotient(1) [OF m0 A0] k by (simp add: rd int_of_float_def)
  qed
qed

lemma round_to_double_whole:
  assumes k: "k \<noteq> 0" "\<bar>k\<bar> < 2 ^ 53" and q: "0 < q"
  shows "round_to_double (k * q) q = Finite (real_of_int k)"
proof -
  define e where "e = max (frac_exponent \<bar>k * q\<bar> q) (- 1022)"
  define A :: int where "A = 2 ^ nat (52 - e)"
  define m where "m = round_half_even_div (\<bar>k * q\<bar> * A) q"
  have abs: "\<bar>k * q\<bar> = \<bar>k\<bar> * q"
    using q by (simp add: abs_mult)
  have "\<bar>k\<bar> * q < q * 2 ^ 53"
    using k q by (simp add: mult.commute)
  then have "frac_exponent \<bar>k * q\<bar> q < int 53"
    using k q unfolding abs by (intro frac_exponent_less) simp_all
  then have e: "e \<le> 52" by (simp add: e_def)
  have A0: "0 < A" by (simp add: A_def)
  have m: "m = \<bar>k\<bar> * A"
    using round_half_even_div_exact [OF q, of "\<bar>k\<bar> * A"] by (simp add: m_def abs mult_ac)
  have r: "real_of_int m / real_of_int A = real_of_int \<bar>k\<bar>"
    using A0 by (simp add: m)
  have "real_of_int \<bar>k\<bar> < real_of_int (2 ^ 54)"
    using k by (simp only: of_int_less_iff) simp
  then have fin: "\<not> DBL_OVERFLOW \<le> real_of_int m / real_of_int A"
    unfolding r by (rule below_overflow)
  have kq: "k * q \<noteq> 0" and neg: "k * q < 0 \<longleftrightarrow> k < 0"
    using k q by (simp_all add: mult_less_0_iff)
  have "round_to_double (k * q) q =
      Finite (if k * q < 0 then - (real_of_int m / real_of_int A) else real_of_int m / real_of_int A)"
    using round_to_double_unfold [OF kq, of q] fin e
    unfolding e_def [symmetric] Let_def A_def [symmetric] m_def [symmetric] by simp
  then show ?thesis
    unfolding r neg by simp
qed

section \<open>Conversions at concrete values\<close>

lemmas field_defs = FIELD_TIMESTAMP_def FIELD_COUNT_def FIELD_MOVING_AVG_SHORT_def
  FIELD_MOVING_AVG_LONG_def

lemmas parse_defs = is_digit_def digit_value_def bytes_space_def str_space_def strip_def split_sign_def
  digitpart_def count_digits_def int_of_literal_def to_lower_def digit_or_underscore_def
  optional_digitpart_def exponent_part_def decimal_parts_def float_neg_def float_of_literal_def
  py_int_def py_float_def

lemma bit_length_values:
  "bit_length 2 = 2" "bit_length 10 = 4" "bit_length 15 = 4" "bit_length 20 = 5" "bit_length 1 = 1"
  "bit_length 1000000 = 20" "bit_length 32503680000999999 = 55"
  using bit_length_eqI [of 1 2] bit_length_eqI [of 3 10] bit_length_eqI [of 3 15]
    bit_length_eqI [of 4 20] bit_length_eqI [of 0 1] bit_length_eqI [of 19 1000000]
    bit_length_eqI [of 54 32503680000999999]
  by simp_all

lemma frac_exponent_values:
  "frac_exponent 2 1 = 1" "frac_exponent 15 10 = 0" "frac_exponent 20 10 = 1"
  "frac_exponent 32503680000999999 1000000 = 34"
  by (simp_all add: frac_exponent_def Let_def bit_length_values)

lemmas round_defs = round_to_double_def frac_exponent_values Let_def round_half_even_div_def
  DBL_OVERFLOW_def

lemma round_to_double_values:
  "round_to_double 2 1 = Finite 2" "round_to_double 15 10 = Finite 1.5"
  "round_to_double 20 10 = Finite 2"
  "round_to_double 32503680000999999 1000000 = Finite 32503680001"
  by (simp_all add: round_defs)

lemma py_float_str_1_5: "py_float (StrValue ''1.5'') = Inr (Finite 1.5)"
  by (simp add: parse_defs round_to_double_values)

lemma py_float_str_2_0: "py_float (StrValue ''2.0'') = Inr (Finite 2)"
  by (simp add: parse_defs round_to_double_values)

lemma py_float_int_2: "py_float (IntValue 2) = Inr (Finite 2)"
  by (simp add: py_float_def float_of_int_def round_to_double_values)

lemma py_int_str_5: "py_int (StrValue ''5'') = Inr 5"
  by (simp add: parse_defs)

lemma py_int_bytes_1700000000: "py_int (BytesValue ''1700000000'') = Inr 1700000000"
  by (simp add: parse_defs)

lemma py_int_str_abc: "py_int (StrValue ''abc'') = Inl ValueError"
  by (simp add: parse_defs)

lemma datetime_timestamp_year_3000: "datetime_timestamp 32503680000999999 = Finite 32503680001"
  by (simp add: datetime_timestamp_def round_to_double_values)

section \<open>Properties of the serialization\<close>

lemma from_redis_dict_string_dict:
  "from_redis_dict string_dict =
    Inr \<lparr>timestamp = None, count = 5, moving_avg_short = Finite 1.5, moving_avg_long = Finite 2\<rparr>"
proof -
  have "string_dict FIELD_TIMESTAMP = None"
    and "string_dict FIELD_COUNT = Some (StrValue ''5'')"
    and "string_dict FIELD_MOVING_AVG_SHORT = Some (StrValue ''1.5'')"
    and "string_dict FIELD_MOVING_AVG_LONG = Some (StrValue ''2.0'')"
    by (simp_all add: string_dict_def field_defs)
  moreover have "py_int (StrValue ''5'') = Inr 5"
    by (simp add: parse_defs)
  ultimately show ?thesis
    by (simp add: from_redis_dict_def dict_get_def bind_def getitem_def py_float_str_1_5 py_float_str_2_0)
qed

lemma div_million:
  fixes t :: int
  shows "t div 1000000 * 1000000 \<le> t" and "t < t div 1000000 * 1000000 + 1000000"
    and "t mod 1000000 = 0 \<Longrightarrow> t = t div 1000000 * 1000000"
proof -
  have a: "t div 1000000 * 1000000 + t mod 1000000 = t"
    by (rule div_mult_mod_eq)
  have b: "0 \<le> t mod 1000000" "t mod 1000000 < 1000000"
    by simp_all
  show "t div 1000000 * 1000000 \<le> t" and "t < t div 1000000 * 1000000 + 1000000"
    using a b by linarith+
  show "t mod 1000000 = 0 \<Longrightarrow> t = t div 1000000 * 1000000"
    using a by simp
qed

lemma timestamp_int:
  assumes v: "valid_datetime t" and r: "second_resolution t \<or> \<bar>t\<bar> < 2 ^ 34 * 1000000"
  shows "int_of_float (datetime_timestamp t) = Inr (truncated_seconds t)"
proof (cases "t = 0")
  case True
  then show ?thesis
    by (simp add: datetime_timestamp_def round_to_double_def int_of_float_def float_trunc_def
        truncated_seconds_def)
next
  case nz: False
  show ?thesis
  proof (cases "\<bar>t\<bar> < 2 ^ 34 * 1000000")
    case True
    then have "\<bar>t\<bar> < 1000000 * 2 ^ 34" by simp
    with nz show ?thesis
      unfolding datetime_timestamp_def truncated_seconds_def
      by (intro round_to_double_small) simp_all
  next
    case False
    with r have "second_resolution t" by simp
    then have t: "t = (t div 1000000) * 1000000"
      by (simp add: second_resolution_def div_million(3))
    define k where "k = t div 1000000"
    have tk: "t = k * 1000000" using t by (simp add: k_def)
    have k0: "k \<noteq> 0" using nz tk by auto
    have "- 62135596800 \<le> k \<and> k < 253402300800"
      using v by (simp add: valid_datetime_def MIN_SECONDS_def MAX_SECONDS_def tk)
    then have "\<bar>k\<bar> < 9007199254740992" by linarith
    then have "\<bar>k\<bar> < 2 ^ 53" by simp
    then have "round_to_double (k * 1000000) 1000000 = Finite (real_of_int k)"
      using k0 by (intro round_to_double_whole) simp_all
    moreover have "sgn (k * 1000000) * (\<bar>k * 1000000\<bar> div 1000000) = k"
      by (simp add: abs_mult sgn_mult mult_sgn_abs)
    ultimately show ?thesis
      by (simp add: datetime_timestamp_def tk int_of_float_def float_trunc_def
          truncated_seconds_def)
  qed
qed

lemma truncated_seconds_range:
  assumes "valid_datetime t"
  shows "MIN_SECONDS \<le> truncated_seconds t \<and> truncated_seconds t \<le> MAX_SECONDS"
proof (cases "0 \<le> t")
  case True
  then have "truncated_seconds t = t div 1000000"
    by (cases "t = 0") (simp_all add: truncated_seconds_def)
  then show ?thesis
    using assms True div_million(1,2) [of t]
    by (simp add: valid_datetime_def MIN_SECONDS_def MAX_SECONDS_def)
next
  case False
  then have "truncated_seconds t = - ((- t) div 1000000)"
    by (simp add: truncated_seconds_def)
  then show ?thesis
    using assms False div_million(1,2) [of "- t"]
    by (simp add: valid_datetime_def MIN_SECONDS_def MAX_SECONDS_def)
qed

lemma truncated_seconds_whole:
  assumes "second_resolution t"
  shows "truncate_to_seconds t = t"
proof -
  define k where "k = t div 1000000"
  have tk: "t = k * 1000000"
    using assms by (simp add: second_resolution_def k_def div_million(3))
  have "sgn (k * 1000000) * (\<bar>k * 1000000\<bar> div 1000000) = k"
    by (simp add: abs_mult sgn_mult mult_sgn_abs)
  then show ?thesis
    by (simp add: truncate_to_seconds_def truncated_seconds_def tk)
qed

lemma from_redis_dict_written:
  assumes "data FIELD_COUNT = Some (IntValue c)"
    and "data FIELD_MOVING_AVG_SHORT = Some (FloatValue a)"
    and "data FIELD_MOVING_AVG_LONG = Some (FloatValue b)"
  shows "data FIELD_TIMESTAMP = None \<Longrightarrow>
      from_redis_dict data =
        Inr \<lparr>timestamp = None, count = c, moving_avg_short = a, moving_avg_long = b\<rparr>"
    and "data FIELD_TIMESTAMP = Some (IntValue n) \<Longrightarrow> MIN_SECONDS \<le> n \<Longrightarrow> n \<le> MAX_SECONDS \<Longrightarrow>
      from_redis_dict data =
        Inr \<lparr>timestamp = Some (n * 1000000), count = c, moving_avg_short = a, moving_avg_long = b\<rparr>"
  using assms
  by (simp_all add: from_redis_dict_def dict_get_def bind_def getitem_def py_int_def py_float_def
      datetime_fromtimestamp_def)

lemma to_redis_dict_fields:
  "to_redis_dict s = Inr data \<Longrightarrow>
     data FIELD_COUNT = Some (IntValue (count s))
     \<and> data FIELD_MOVING_AVG_SHORT = Some (FloatValue (moving_avg_short s))
     \<and> data FIELD_MOVING_AVG_LONG = Some (FloatValue (moving_avg_long s))"
  by (auto simp: to_redis_dict_def field_defs Let_def split: option.splits sum.splits)

lemma round_trip_none:
  assumes "timestamp s = None"
  shows "round_trip s = Inr s"
    and "\<exists>data. to_redis_dict s = Inr data \<and> data FIELD_TIMESTAMP = None"
proof -
  define data where "data = [FIELD_COUNT \<mapsto> IntValue (count s),
               FIELD_MOVING_AVG_SHORT \<mapsto> FloatValue (moving_avg_short s),
               FIELD_MOVING_AVG_LONG \<mapsto> FloatValue (moving_avg_long s)]"
  have w: "to_redis_dict s = Inr data"
    using assms by (simp add: to_redis_dict_def data_def)
  have n: "data FIELD_TIMESTAMP = None"
    by (simp add: data_def field_defs)
  show "\<exists>data. to_redis_dict s = Inr data \<and> data FIELD_TIMESTAMP = None"
    using w n by blast
  have "from_redis_dict data =
      Inr \<lparr>timestamp = None, count = count s, moving_avg_short = moving_avg_short s,
           moving_avg_long = moving_avg_long s\<rparr>"
    using to_redis_dict_fields [OF w] n by (intro from_redis_dict_written(1)) simp_all
  then show "round_trip s = Inr s"
    using assms by (simp add: round_trip_def bind_def w)
qed

lemma round_trip_some:
  assumes ts: "timestamp s = Some t" and v: "valid_datetime t"
    and r: "second_resolution t \<or> \<bar>t\<bar> < 2 ^ 34 * 1000000"
  shows "round_trip s = Inr (s\<lparr>timestamp := Some (truncate_to_seconds t)\<rparr>)"
proof -
  define data where "data = [FIELD_COUNT \<mapsto> IntValue (count s),
               FIELD_MOVING_AVG_SHORT \<mapsto> FloatValue (moving_avg_short s),
               FIELD_MOVING_AVG_LONG \<mapsto> FloatValue (moving_avg_long s),
               FIELD_TIMESTAMP \<mapsto> IntValue (truncated_seconds t)]"
  have w: "to_redis_dict s = Inr data"
    using ts timestamp_int [OF v r] by (simp add: to_redis_dict_def data_def)
  have n: "data FIELD_TIMESTAMP = Some (IntValue (truncated_seconds t))"
    by (simp add: data_def)
  have "from_redis_dict data =
      Inr \<lparr>timestamp = Some (truncated_seconds t * 1000000), count = count s,
           moving_avg_short = moving_avg_short s, moving_avg_long = moving_avg_long s\<rparr>"
    using to_redis_dict_fields [OF w] n truncated_seconds_range [OF v]
    by (intro from_redis_dict_written(2)) simp_all
  then show ?thesis
    by (simp add: round_trip_def bind_def w truncate_to_seconds_def)
qed

lemma raises_bind4:
  "raises (bind x (\<lambda>a. bind y (\<lambda>b. bind z (\<lambda>c. bind w (\<lambda>d. Inr (g a b c d))))))
     \<longleftrightarrow> raises x \<or> raises y \<or> raises z \<or> raises w"
  by (cases x; cases y; cases z; cases w) (simp_all add: bind_def raises_def)

lemma raises_getitem:
  "raises (bind (getitem data key) conv) \<longleftrightarrow> missing_or_unparsable conv (data key)"
  by (simp add: getitem_def bind_def raises_def missing_or_unparsable_def split: option.splits)

lemma bad_timestamp_dict_fields:
  "bad_timestamp_dict FIELD_TIMESTAMP = Some (StrValue ''abc'')"
  "bad_timestamp_dict FIELD_COUNT = Some (StrValue ''5'')"
  "bad_timestamp_dict FIELD_MOVING_AVG_SHORT = Some (StrValue ''1.5'')"
  "bad_timestamp_dict FIELD_MOVING_AVG_LONG = Some (StrValue ''2.0'')"
  by (simp_all add: bad_timestamp_dict_def string_dict_def field_defs)

lemma conversion_errors:
  "py_int v = Inl e \<Longrightarrow> e = TypeError \<or> e = ValueError \<or> e = OverflowError"
  "py_float v = Inl e \<Longrightarrow> e = TypeError \<or> e = ValueError \<or> e = OverflowError"
  "datetime_fromtimestamp n = Inl e \<Longrightarrow> e = RangeError"
proof -
  show "py_int v = Inl e \<Longrightarrow> e = TypeError \<or> e = ValueError \<or> e = OverflowError"
    by (cases v)
      (auto simp: py_int_def int_of_float_def int_of_literal_def
        split: pyfloat.splits prod.splits option.splits if_splits)
  show "py_float v = Inl e \<Longrightarrow> e = TypeError \<or> e = ValueError \<or> e = OverflowError"
    by (cases v)
      (auto simp: py_float_def float_of_int_def float_of_literal_def Let_def
        split: pyfloat.splits prod.splits option.splits if_splits)
  show "datetime_fromtimestamp n = Inl e \<Longrightarrow> e = RangeError"
    by (auto simp: datetime_fromtimestamp_def split: if_splits)
qed

lemma timestamp_step:
  "(let ts = dict_get data FIELD_TIMESTAMP
    in if ts = NoneValue then Inr None
       else bind (py_int ts) (\<lambda>n. bind (datetime_fromtimestamp n) (\<lambda>t. Inr (Some t)))) = Inl e
   \<longleftrightarrow> timestamp_error data = Some e"
  by (auto simp: dict_get_def timestamp_error_def bind_def Let_def split: option.splits sum.splits)

lemma timestamp_step_raises:
  "raises (let ts = dict_get data FIELD_TIMESTAMP
    in if ts = NoneValue then Inr None
       else bind (py_int ts) (\<lambda>n. bind (datetime_fromtimestamp n) (\<lambda>t. Inr (Some t))))
   \<longleftrightarrow> timestamp_unparsable (data FIELD_TIMESTAMP)"
  by (auto simp: dict_get_def timestamp_unparsable_def bind_def raises_def Let_def
      split: option.splits sum.splits)

lemma field_step:
  "bind (getitem data key) conv = Inl e \<longleftrightarrow> field_error conv key data = Some e"
  by (auto simp: getitem_def bind_def field_error_def split: option.splits sum.splits)

lemma bind4_error:
  "bind x (\<lambda>a. bind y (\<lambda>b. bind z (\<lambda>c. bind w (\<lambda>d. Inr (g a b c d))))) = Inl e
     \<longleftrightarrow> x = Inl e
       \<or> (\<exists>a. x = Inr a) \<and> (y = Inl e
       \<or> (\<exists>b. y = Inr b) \<and> (z = Inl e
       \<or> (\<exists>c. z = Inr c) \<and> w = Inl e))"
  by (cases x; cases y; cases z; cases w) (simp_all add: bind_def)

lemma no_error_iff: "(\<exists>a. x = Inr a) \<longleftrightarrow> (\<forall>e. x \<noteq> Inl e)"
  by (cases x) simp_all

lemma from_redis_dict_error:
  "from_redis_dict data = Inl e \<longleftrightarrow> first_failure data = Some e"
proof -
  have none: "(\<forall>e. timestamp_error data \<noteq> Some e) \<longleftrightarrow> timestamp_error data = None"
    "\<And>conv key. (\<forall>e. field_error conv key data \<noteq> Some e) \<longleftrightarrow> field_error conv key data = None"
    by auto
  show ?thesis
    unfolding from_redis_dict_def bind4_error no_error_iff timestamp_step field_step none
    by (auto simp: first_failure_def split: option.splits)
qed

lemma no_failure:
  "timestamp_error data = None \<longleftrightarrow> \<not> timestamp_unparsable (data FIELD_TIMESTAMP)"
  "field_error conv key data = None \<longleftrightarrow> \<not> missing_or_unparsable conv (data key)"
  by (auto simp: timestamp_error_def timestamp_unparsable_def field_error_def
      missing_or_unparsable_def raises_def bind_def split: option.splits sum.splits)

lemma missing_key_error: "data key = None \<Longrightarrow> field_error conv key data = Some (KeyError key)"
  by (simp add: field_error_def)

lemma from_redis_dict_result:
  assumes c: "data FIELD_COUNT = Some c" "py_int c = Inr n"
    and a: "data FIELD_MOVING_AVG_SHORT = Some a" "py_float a = Inr x"
    and b: "data FIELD_MOVING_AVG_LONG = Some b" "py_float b = Inr y"
  shows "data FIELD_TIMESTAMP = None \<or> data FIELD_TIMESTAMP = Some NoneValue \<Longrightarrow>
      from_redis_dict data =
        Inr \<lparr>timestamp = None, count = n, moving_avg_short = x, moving_avg_long = y\<rparr>"
    and "data FIELD_TIMESTAMP = Some ts \<Longrightarrow> py_int ts = Inr k \<Longrightarrow> datetime_fromtimestamp k = Inr t \<Longrightarrow>
      from_redis_dict data =
        Inr \<lparr>timestamp = Some t, count = n, moving_avg_short = x, moving_avg_long = y\<rparr>"
proof -
  show "data FIELD_TIMESTAMP = None \<or> data FIELD_TIMESTAMP = Some NoneValue \<Longrightarrow>
      from_redis_dict data =
        Inr \<lparr>timestamp = None, count = n, moving_avg_short = x, moving_avg_long = y\<rparr>"
    using assms by (auto simp: from_redis_dict_def dict_get_def bind_def getitem_def)
  assume ts: "data FIELD_TIMESTAMP = Some ts" "py_int ts = Inr k" "datetime_fromtimestamp k = Inr t"
  then have "ts \<noteq> NoneValue"
    by (auto simp: py_int_def)
  then show "from_redis_dict data =
        Inr \<lparr>timestamp = Some t, count = n, moving_avg_short = x, moving_avg_long = y\<rparr>"
    using assms ts by (simp add: from_redis_dict_def dict_get_def bind_def getitem_def)
qed

lemma example_dict_fields:
  "none_timestamp_dict FIELD_TIMESTAMP = Some NoneValue"
  "none_timestamp_dict FIELD_COUNT = Some (StrValue ''5'')"
  "none_timestamp_dict FIELD_MOVING_AVG_SHORT = Some (StrValue ''1.5'')"
  "none_timestamp_dict FIELD_MOVING_AVG_LONG = Some (StrValue ''2.0'')"
  "missing_short_dict FIELD_TIMESTAMP = None"
  "missing_short_dict FIELD_COUNT = Some (StrValue ''5'')"
  "missing_short_dict FIELD_MOVING_AVG_SHORT = None"
  "equal_averages_dict FIELD_TIMESTAMP = None"
  "equal_averages_dict FIELD_COUNT = Some (StrValue ''5'')"
  "equal_averages_dict FIELD_MOVING_AVG_SHORT = Some (StrValue ''1.5'')"
  "equal_averages_dict FIELD_MOVING_AVG_LONG = Some (StrValue ''1.5'')"
  "mixed_dict FIELD_TIMESTAMP = Some (BytesValue ''1700000000'')"
  "mixed_dict FIELD_COUNT = Some (IntValue 5)"
  "mixed_dict FIELD_MOVING_AVG_SHORT = Some (FloatValue (Finite 1.5))"
  "mixed_dict FIELD_MOVING_AVG_LONG = Some (IntValue 2)"
  "missing_long_dict FIELD_TIMESTAMP = None"
  "missing_long_dict FIELD_COUNT = Some (StrValue ''5'')"
  "missing_long_dict FIELD_MOVING_AVG_SHORT = Some (StrValue ''1.5'')"
  "missing_long_dict FIELD_MOVING_AVG_LONG = None"
  by (simp_all add: none_timestamp_dict_def missing_short_dict_def missing_long_dict_def
      equal_averages_dict_def mixed_dict_def string_dict_def field_defs)

section \<open>Properties of update\<close>

lemma py_lt_asym: "py_lt a b \<Longrightarrow> \<not> py_lt b a"
  by (cases a; cases b) auto

lemma py_lt_irrefl: "\<not> py_lt a a"
  by (cases a) auto

lemmas scenario_defs =
  update_def init_def empty_def scenario_config_def latest_sample_def cumulative_mean_def
  out_of_order_def Let_def short_value_def long_value_def py_gt_def py_le_def py_ge_def
  py_mean_step_def scenario_detector_def scenario_payload_def state_def

lemmas scenario_defs2 = scenario_defs
  late_payload_def same_time_payload_def
  warmup_payloads_def mixed_payloads_def accepted_def spec_decision_def

lemma feed_config: "self_config (snd (feed d ps)) = self_config d"
proof (induction ps arbitrary: d)
  case Nil
  show ?case by simp
next
  case (Cons p ps)
  have "self_config (snd (update d p)) = self_config d"
    by (simp add: update_def Let_def)
  with Cons [of "snd (update d p)"] show ?case
    by (simp add: split_beta)
qed

lemma update_count:
  "self_count (snd (update d p)) = self_count d + (if fst (update d p) = None then 0 else 1)"
  by (simp add: update_def Let_def)

lemma feed_count: "self_count (snd (feed d ps)) = self_count d + int (accepted (fst (feed d ps)))"
proof (induction ps arbitrary: d)
  case Nil
  show ?case by (simp add: accepted_def)
next
  case (Cons p ps)
  show ?case
    using Cons [of "snd (update d p)"] update_count [of d p]
    by (simp add: split_beta accepted_def)
qed

lemma feed_length: "length (fst (feed d ps)) = length ps"
  by (induction ps arbitrary: d) (simp_all add: split_beta)

lemma feed_take: "fst (feed d (take n ps)) = take n (fst (feed d ps))"
proof (induction ps arbitrary: d n)
  case Nil
  show ?case by simp
next
  case (Cons p ps)
  show ?case
    by (cases n) (simp_all add: split_beta Cons)
qed

lemma feed_nth:
  "i < length ps \<Longrightarrow>
     fst (feed d ps) ! i = fst (update (snd (feed d (take i ps))) (ps ! i))"
proof (induction ps arbitrary: d i)
  case Nil
  then show ?case by simp
next
  case (Cons p ps)
  show ?case
  proof (cases i)
    case 0
    then show ?thesis by (simp add: split_beta)
  next
    case (Suc j)
    with Cons.prems have "j < length ps" by simp
    from Cons.IH [OF this, of "snd (update d p)"] Suc show ?thesis
      by (simp add: split_beta)
  qed
qed

lemma update_timestamp_invariant:
  "(self_count d = 0 \<longleftrightarrow> self_timestamp d = None) \<Longrightarrow> 0 \<le> self_count d \<Longrightarrow>
   (self_count (snd (update d p)) = 0 \<longleftrightarrow> self_timestamp (snd (update d p)) = None)
   \<and> 0 \<le> self_count (snd (update d p))"
  by (simp add: update_def Let_def)

lemma feed_timestamp_invariant:
  "(self_count d = 0 \<longleftrightarrow> self_timestamp d = None) \<Longrightarrow> 0 \<le> self_count d \<Longrightarrow>
   (self_count (snd (feed d ps)) = 0 \<longleftrightarrow> self_timestamp (snd (feed d ps)) = None)"
proof (induction ps arbitrary: d)
  case Nil
  then show ?case by simp
next
  case (Cons p ps)
  from update_timestamp_invariant [OF Cons.prems, of p]
  have "self_count (snd (feed (snd (update d p)) ps)) = 0
      \<longleftrightarrow> self_timestamp (snd (feed (snd (update d p)) ps)) = None"
    by (intro Cons.IH) simp_all
  then show ?case by (simp add: split_beta)
qed

section \<open>The claims about update\<close>

text \<open>
  C2. For an accepted call of \<^verbatim>\<open>update\<close> after which the count exceeds
  \<^verbatim>\<open>min_data_points\<close>, the result is \<^verbatim>\<open>Regressed\<close> exactly when the new short average is
  greater than the new long average and the old short average was at most the old long
  average; it is \<^verbatim>\<open>Improved\<close> exactly when the new short average is less than the new long
  average and the old short average was at least the old long average; it is
  \<^verbatim>\<open>Unchanged\<close> otherwise, in particular when the averages are equal both before and after.
\<close>

theorem update_stabilized_decision:
  assumes "\<not> out_of_order d p" and "update d p = (r, d')"
    and "self_count d' > min_data_points (self_config d')"
  shows "(r = Some Regressed \<longleftrightarrow>
            py_gt (short_value d') (long_value d') \<and> py_le (short_value d) (long_value d))
       \<and> (r = Some Improved \<longleftrightarrow>
            py_lt (short_value d') (long_value d') \<and> py_ge (short_value d) (long_value d))
       \<and> (r = Some Unchanged \<longleftrightarrow>
            \<not> (py_gt (short_value d') (long_value d') \<and> py_le (short_value d) (long_value d))
          \<and> \<not> (py_lt (short_value d') (long_value d') \<and> py_ge (short_value d) (long_value d)))
       \<and> (short_value d = long_value d \<and> short_value d' = long_value d' \<longrightarrow> r = Some Unchanged)"
proof -
  let ?d' = "snd (update d p)"
  have d': "d' = ?d'" and r: "r = fst (update d p)"
    using assms(2) by simp_all
  have stab: "self_count ?d' > min_data_points (self_config ?d')"
    using assms(3) d' by simp
  have excl: "\<not> (py_gt (short_value d') (long_value d') \<and> py_lt (short_value d') (long_value d'))"
    using py_lt_asym by (auto simp: py_gt_def)
  have irr: "short_value d' = long_value d' \<Longrightarrow>
      \<not> py_gt (short_value d') (long_value d') \<and> \<not> py_lt (short_value d') (long_value d')"
    by (simp add: py_gt_def py_lt_irrefl)
  have r_eq: "r = Some (if py_gt (short_value d') (long_value d') \<and> py_le (short_value d) (long_value d)
            then Regressed
            else if py_lt (short_value d') (long_value d') \<and> py_ge (short_value d) (long_value d)
            then Improved else Unchanged)"
    using assms by (auto simp: update_def Let_def split: if_splits)
  show ?thesis
    using excl irr by (auto simp: r_eq)
qed

theorem update_stabilized_decision_witness:
  "\<not> out_of_order scenario_detector scenario_payload
   \<and> self_count (snd (update scenario_detector scenario_payload))
       > min_data_points (self_config (snd (update scenario_detector scenario_payload)))
   \<and> fst (update scenario_detector scenario_payload) = Some Regressed
   \<and> py_gt (short_value (snd (update scenario_detector scenario_payload)))
        (long_value (snd (update scenario_detector scenario_payload)))
   \<and> py_le (short_value scenario_detector) (long_value scenario_detector)"
proof -
  have h1: "\<not> out_of_order scenario_detector scenario_payload"
    by (simp add: scenario_defs)
  have h2: "update scenario_detector scenario_payload =
      (fst (update scenario_detector scenario_payload), snd (update scenario_detector scenario_payload))"
    by simp
  have h3: "self_count (snd (update scenario_detector scenario_payload))
       > min_data_points (self_config (snd (update scenario_detector scenario_payload)))"
    by (simp add: scenario_defs)
  have h4: "fst (update scenario_detector scenario_payload) = Some Regressed"
    by (simp add: scenario_defs)
  show ?thesis
    using update_stabilized_decision [OF h1 h2 h3] h1 h3 h4 by simp
qed

text \<open>
  C3. With \<^verbatim>\<open>min_data_points = 2\<close>, a short average that reports the latest sample and
  a long average that is the cumulative mean, the values 10, 10, 10, 100, 100 fed in strictly
  increasing timestamp order into a detector built from the empty state give \<^verbatim>\<open>Regressed\<close>
  on the fourth call and \<^verbatim>\<open>Unchanged\<close> on every other call.
\<close>

theorem scenario:
  assumes "t1 < t2" "t2 < t3" "t3 < t4" "t4 < t5"
  shows "fst (feed (init empty scenario_config)
           [\<lparr>payload_timestamp = t1, payload_value = Finite 10\<rparr>,
            \<lparr>payload_timestamp = t2, payload_value = Finite 10\<rparr>,
            \<lparr>payload_timestamp = t3, payload_value = Finite 10\<rparr>,
            \<lparr>payload_timestamp = t4, payload_value = Finite 100\<rparr>,
            \<lparr>payload_timestamp = t5, payload_value = Finite 100\<rparr>])
         = [Some Unchanged, Some Unchanged, Some Unchanged, Some Regressed, Some Unchanged]"
  using assms
  by (simp add: update_def init_def empty_def scenario_config_def latest_sample_def cumulative_mean_def
     out_of_order_def Let_def short_value_def long_value_def py_gt_def py_le_def py_ge_def py_mean_step_def)

theorem scenario_witness:
  "(1::int) < 2 \<and> (2::int) < 3 \<and> (3::int) < 4 \<and> (4::int) < 5 \<and>
   fst (feed (init empty scenario_config)
           [\<lparr>payload_timestamp = 1, payload_value = Finite 10\<rparr>,
            \<lparr>payload_timestamp = 2, payload_value = Finite 10\<rparr>,
            \<lparr>payload_timestamp = 3, payload_value = Finite 10\<rparr>,
            \<lparr>payload_timestamp = 4, payload_value = Finite 100\<rparr>,
            \<lparr>payload_timestamp = 5, payload_value = Finite 100\<rparr>])
     = [Some Unchanged, Some Unchanged, Some Unchanged, Some Regressed, Some Unchanged]"
  using scenario [of 1 2 3 4 5] by simp

text \<open>
  C4. For a detector started from the empty state, every accepted call of
  \<^verbatim>\<open>update\<close> after which the count is at most \<^verbatim>\<open>min_data_points\<close> returns
  \<^verbatim>\<open>Unchanged\<close>, whatever the averages are.  After exactly \<^verbatim>\<open>min_data_points\<close> accepted
  calls the next accepted call is the first one decided by the crossover arithmetic: it
  returns what the decision of the specification gives for the old and new averages.  The
  count after a call is the number of accepted calls so far.
\<close>

theorem stabilization_boundary:
  "(feed (init empty cfg) ps = (rs, d) \<longrightarrow> i < length rs \<longrightarrow> rs ! i = Some r
      \<longrightarrow> int (accepted (take (Suc i) rs)) \<le> min_data_points cfg \<longrightarrow> r = Unchanged)
   \<and> (feed (init empty cfg) ps = (rs, d) \<longrightarrow> int (accepted rs) = min_data_points cfg
      \<longrightarrow> \<not> out_of_order d p
      \<longrightarrow> fst (update d p) =
           Some (spec_decision (short_value d) (long_value d)
                   (short_value (snd (update d p))) (long_value (snd (update d p)))))"
proof (intro conjI impI)
  assume f: "feed (init empty cfg) ps = (rs, d)" and i: "i < length rs" and r: "rs ! i = Some r"
    and k: "int (accepted (take (Suc i) rs)) \<le> min_data_points cfg"
  let ?d0 = "init empty cfg"
  let ?di = "snd (feed ?d0 (take i ps))"
  have rs: "rs = fst (feed ?d0 ps)" using f by simp
  have ips: "i < length ps" using i rs by (simp add: feed_length)
  have ri: "fst (update ?di (ps ! i)) = Some r"
    using feed_nth [OF ips, of ?d0] r rs by simp
  have cnt: "self_count ?di = int (accepted (take i rs))"
    using feed_count [of ?d0 "take i ps"] by (simp add: feed_take rs init_def empty_def)
  have "take (Suc i) rs = take i rs @ [rs ! i]"
    using i by (simp add: take_Suc_conv_app_nth)
  then have "accepted (take (Suc i) rs) = accepted (take i rs) + 1"
    using r by (simp add: accepted_def)
  then have le: "self_count ?di + 1 \<le> min_data_points (self_config ?di)"
    using k cnt by (simp add: feed_config init_def)
  show "r = Unchanged"
    using ri le by (auto simp: update_def Let_def split: if_splits)
next
  assume f: "feed (init empty cfg) ps = (rs, d)" and k: "int (accepted rs) = min_data_points cfg"
    and acc: "\<not> out_of_order d p"
  have d: "d = snd (feed (init empty cfg) ps)" and rs: "rs = fst (feed (init empty cfg) ps)"
    using f by simp_all
  have "self_count d = int (accepted rs)"
    unfolding d rs using feed_count [of "init empty cfg" ps] by (simp add: init_def empty_def)
  moreover have "self_config d = cfg"
    unfolding d by (simp add: feed_config init_def)
  ultimately have "self_count d + 1 > min_data_points (self_config d)"
    using k by simp
  then show "fst (update d p) =
       Some (spec_decision (short_value d) (long_value d)
               (short_value (snd (update d p))) (long_value (snd (update d p))))"
    using acc by (simp add: update_def Let_def spec_decision_def short_value_def long_value_def)
qed

theorem stabilization_boundary_witness:
  "feed (init empty scenario_config) warmup_payloads =
     (fst (feed (init empty scenario_config) warmup_payloads),
      snd (feed (init empty scenario_config) warmup_payloads))
   \<and> (1::nat) < length (fst (feed (init empty scenario_config) warmup_payloads))
   \<and> fst (feed (init empty scenario_config) warmup_payloads) ! 1 = Some Unchanged
   \<and> int (accepted (take (Suc 1) (fst (feed (init empty scenario_config) warmup_payloads))))
       \<le> min_data_points scenario_config
   \<and> int (accepted (fst (feed (init empty scenario_config) warmup_payloads)))
       = min_data_points scenario_config
   \<and> \<not> out_of_order (snd (feed (init empty scenario_config) warmup_payloads)) same_time_payload
   \<and> fst (update (snd (feed (init empty scenario_config) warmup_payloads)) same_time_payload)
       = Some Regressed"
proof -
  let ?rs = "fst (feed (init empty scenario_config) warmup_payloads)"
  let ?d = "snd (feed (init empty scenario_config) warmup_payloads)"
  have h1: "feed (init empty scenario_config) warmup_payloads = (?rs, ?d)"
    by simp
  have rs: "?rs = [Some Unchanged, Some Unchanged]"
    by (simp add: scenario_defs2)
  have h2: "int (accepted ?rs) = min_data_points scenario_config"
    by (simp add: rs) (simp add: scenario_defs2)
  have h3: "\<not> out_of_order ?d same_time_payload"
    by (simp add: scenario_defs2)
  have h4: "spec_decision (short_value ?d) (long_value ?d)
      (short_value (snd (update ?d same_time_payload)))
      (long_value (snd (update ?d same_time_payload))) = Regressed"
    by (simp add: scenario_defs2)
  have "fst (update ?d same_time_payload) = Some Regressed"
    using stabilization_boundary [where cfg = scenario_config and ps = warmup_payloads
        and rs = ?rs and d = ?d and p = same_time_payload] h1 h2 h3 h4
    by simp
  then show ?thesis
    using h2 h3 by (simp add: rs) (simp add: scenario_defs2)
qed

text \<open>
  C5. For a detector whose timestamp is \<open>t0\<close>, a payload with a timestamp strictly
  earlier than \<open>t0\<close> makes \<^verbatim>\<open>update\<close> return \<^verbatim>\<open>None\<close> and leaves the detector as it was:
  both moving averages, the timestamp and the count, and so the \<^verbatim>\<open>state\<close> snapshot.
\<close>

theorem out_of_order_rejected:
  assumes "self_timestamp d = Some t0" and "payload_timestamp p < t0"
  shows "update d p = (None, d) \<and> state (snd (update d p)) = state d"
  using assms by (simp add: update_def out_of_order_def)

theorem out_of_order_rejected_witness:
  "self_timestamp scenario_detector = Some 3000000
   \<and> payload_timestamp late_payload < 3000000
   \<and> update scenario_detector late_payload = (None, scenario_detector)
   \<and> state (snd (update scenario_detector late_payload)) = state scenario_detector"
proof -
  have h1: "self_timestamp scenario_detector = Some 3000000"
    by (simp add: scenario_detector_def init_def)
  have h2: "payload_timestamp late_payload < 3000000"
    by (simp add: late_payload_def)
  show ?thesis
    using out_of_order_rejected [OF h1 h2] h1 h2 by simp
qed

text \<open>
  C8. Starting from the empty state, after any sequence of \<^verbatim>\<open>update\<close> calls the count
  is zero exactly when the timestamp is \<^verbatim>\<open>None\<close>, in the detector and in its \<^verbatim>\<open>state\<close>
  snapshot.  From any detector, the count after a sequence of calls is the initial count plus
  the number of accepted calls, so it never decreases; a rejected call leaves the count
  unchanged and an accepted call adds one.
\<close>

theorem count_invariant:
  "(feed (init empty cfg) ps = (rs, d) \<longrightarrow>
      (self_count d = 0 \<longleftrightarrow> self_timestamp d = None)
    \<and> (count (state d) = 0 \<longleftrightarrow> timestamp (state d) = None)
    \<and> self_count d = int (accepted rs))
   \<and> (feed d0 ps = (rs, d) \<longrightarrow>
      self_count d = self_count d0 + int (accepted rs) \<and> self_count d0 \<le> self_count d)
   \<and> self_count (snd (update d0 p)) = self_count d0 + (if out_of_order d0 p then 0 else 1)"
proof -
  have a: "self_count (snd (feed (init empty cfg) ps)) = 0
      \<longleftrightarrow> self_timestamp (snd (feed (init empty cfg) ps)) = None"
    by (rule feed_timestamp_invariant) (simp_all add: init_def empty_def)
  have b: "self_count (snd (feed (init empty cfg) ps))
      = int (accepted (fst (feed (init empty cfg) ps)))"
    using feed_count [of "init empty cfg" ps] by (simp add: init_def empty_def)
  have c: "self_count (snd (feed d0 ps)) = self_count d0 + int (accepted (fst (feed d0 ps)))"
    by (rule feed_count)
  have d: "self_count (snd (update d0 p)) = self_count d0 + (if out_of_order d0 p then 0 else 1)"
    by (simp add: update_def Let_def)
  show ?thesis
    using a b c d by (auto simp: state_def)
qed

theorem count_invariant_witness:
  "fst (feed (init empty scenario_config) mixed_payloads)
       = [Some Unchanged, None, Some Unchanged]
   \<and> self_count (snd (feed (init empty scenario_config) mixed_payloads)) = 2
   \<and> self_timestamp (snd (feed (init empty scenario_config) mixed_payloads)) = Some 2000000"
proof -
  let ?rs = "fst (feed (init empty scenario_config) mixed_payloads)"
  let ?d = "snd (feed (init empty scenario_config) mixed_payloads)"
  have h1: "feed (init empty scenario_config) mixed_payloads = (?rs, ?d)"
    by simp
  have h2: "?rs = [Some Unchanged, None, Some Unchanged]"
    by (simp add: scenario_defs2)
  have h3: "self_timestamp ?d = Some 2000000"
    by (simp add: scenario_defs2)
  have "self_count ?d = int (accepted ?rs)"
    using count_invariant [where cfg = scenario_config and ps = mixed_payloads
        and rs = ?rs and d = ?d and ?d0.0 = "init empty scenario_config"] h1
    by blast
  then have "self_count ?d = 2"
    by (simp add: h2 accepted_def)
  then show ?thesis
    using h2 h3 by simp
qed



section \<open>The claims about the state\<close>

text \<open>
  C1. The claim is that the \<^verbatim>\<open>state\<close> property reports, in \<^verbatim>\<open>moving_avg_long\<close>, the current
  value of the long moving average.  The source reads \<^verbatim>\<open>self.moving_avg_short.value\<close> for
  that field.  After the values 10, 10, 10, 100 of the crossover scenario the long average is
  32.5 and the short average is 100, and the snapshot reports 100 as \<^verbatim>\<open>moving_avg_long\<close>.
\<close>

theorem state_reports_short_as_long:
  "long_value (snd (feed (init empty scenario_config) regressed_payloads)) = Finite 32.5
   \<and> short_value (snd (feed (init empty scenario_config) regressed_payloads)) = Finite 100
   \<and> moving_avg_long (state (snd (feed (init empty scenario_config) regressed_payloads)))
       = Finite 100"
  by (simp add: scenario_defs regressed_payloads_def)

text \<open>
  C6. A state whose timestamp is \<^verbatim>\<open>None\<close> is written without the key \<^verbatim>\<open>T\<close> and read back
  unchanged, and reading a mapping without \<^verbatim>\<open>T\<close> gives the timestamp \<^verbatim>\<open>None\<close>.  A state
  whose timestamp is a whole second of the years 1 to 9999 is read back unchanged.  A state
  whose timestamp is less than \<open>2 ^ 34\<close> seconds from the epoch (the years 1426 to 2514) is
  read back with all other fields unchanged and the timestamp truncated to whole seconds,
  towards the epoch.
\<close>

theorem round_trip_law:
  "(timestamp s0 = None \<longrightarrow>
      round_trip s0 = Inr s0
      \<and> (\<exists>data. to_redis_dict s0 = Inr data \<and> data FIELD_TIMESTAMP = None))
   \<and> (timestamp s1 = Some t1 \<and> valid_datetime t1 \<and> second_resolution t1 \<longrightarrow>
        round_trip s1 = Inr s1)
   \<and> (timestamp s2 = Some t2 \<and> valid_datetime t2 \<and> \<bar>t2\<bar> < 2 ^ 34 * 1000000 \<longrightarrow>
        round_trip s2 = Inr (s2\<lparr>timestamp := Some (truncate_to_seconds t2)\<rparr>))
   \<and> (from_redis_dict data = Inr s' \<and> data FIELD_TIMESTAMP = None \<longrightarrow> timestamp s' = None)"
proof (intro conjI impI)
  assume "timestamp s0 = None"
  then show "round_trip s0 = Inr s0"
    and "\<exists>data. to_redis_dict s0 = Inr data \<and> data FIELD_TIMESTAMP = None"
    by (rule round_trip_none)+
next
  assume a: "timestamp s1 = Some t1 \<and> valid_datetime t1 \<and> second_resolution t1"
  then have "round_trip s1 = Inr (s1\<lparr>timestamp := Some (truncate_to_seconds t1)\<rparr>)"
    by (intro round_trip_some) simp_all
  then show "round_trip s1 = Inr s1"
    using a by (simp add: truncated_seconds_whole)
next
  assume "timestamp s2 = Some t2 \<and> valid_datetime t2 \<and> \<bar>t2\<bar> < 2 ^ 34 * 1000000"
  then show "round_trip s2 = Inr (s2\<lparr>timestamp := Some (truncate_to_seconds t2)\<rparr>)"
    by (intro round_trip_some) simp_all
next
  assume "from_redis_dict data = Inr s' \<and> data FIELD_TIMESTAMP = None"
  then show "timestamp s' = None"
    by (auto simp: from_redis_dict_def dict_get_def bind_def split: sum.splits)
qed

theorem round_trip_law_witness:
  "timestamp empty = None \<and> round_trip empty = Inr empty
   \<and> timestamp whole_second_state = Some 1700000000000000
   \<and> valid_datetime 1700000000000000 \<and> second_resolution 1700000000000000
   \<and> round_trip whole_second_state = Inr whole_second_state
   \<and> timestamp early_state = Some (- 1500000)
   \<and> valid_datetime (- 1500000) \<and> \<bar>- 1500000 :: int\<bar> < 2 ^ 34 * 1000000
   \<and> round_trip early_state = Inr (early_state\<lparr>timestamp := Some (- 1000000)\<rparr>)
   \<and> string_dict FIELD_TIMESTAMP = None
   \<and> timestamp \<lparr>timestamp = None, count = 5, moving_avg_short = Finite 1.5,
        moving_avg_long = Finite 2\<rparr> = None"
proof -
  have h0: "timestamp empty = None"
    by (simp add: empty_def)
  have h1: "timestamp whole_second_state = Some 1700000000000000
      \<and> valid_datetime 1700000000000000 \<and> second_resolution 1700000000000000"
    by (simp add: whole_second_state_def valid_datetime_def second_resolution_def
        MIN_SECONDS_def MAX_SECONDS_def)
  have h2: "timestamp early_state = Some (- 1500000)
      \<and> valid_datetime (- 1500000) \<and> \<bar>- 1500000 :: int\<bar> < 2 ^ 34 * 1000000"
    by (simp add: early_state_def valid_datetime_def MIN_SECONDS_def MAX_SECONDS_def)
  have h3: "from_redis_dict string_dict =
      Inr \<lparr>timestamp = None, count = 5, moving_avg_short = Finite 1.5, moving_avg_long = Finite 2\<rparr>
      \<and> string_dict FIELD_TIMESTAMP = None"
    by (simp add: from_redis_dict_string_dict) (simp add: string_dict_def field_defs)
  have tr: "truncate_to_seconds (- 1500000) = - 1000000"
    by (simp add: truncate_to_seconds_def truncated_seconds_def)
  show ?thesis
    using round_trip_law [of empty whole_second_state 1700000000000000 early_state "- 1500000"
        string_dict "\<lparr>timestamp = None, count = 5, moving_avg_short = Finite 1.5,
          moving_avg_long = Finite 2\<rparr>"]
      h0 h1 h2 h3
    by (simp add: tr)
qed

text \<open>
  C6, as it is stated, fails for a sub-second timestamp far from the epoch.  The float that
  \<^verbatim>\<open>timestamp()\<close> returns for 3000-01-01 00:00:00.999999 UTC is the nearest double,
  32503680001.0, since doubles of that size are \<open>2 ^ -18\<close> seconds apart; the state is read
  back with the timestamp 3000-01-01 00:00:01, which is later than the original and is not its
  truncation.
\<close>

theorem round_trip_rounds_up:
  "valid_datetime 32503680000999999
   \<and> timestamp sub_second_state = Some 32503680000999999
   \<and> round_trip sub_second_state = Inr (sub_second_state\<lparr>timestamp := Some 32503680001000000\<rparr>)
   \<and> truncate_to_seconds 32503680000999999 = 32503680000000000"
proof -
  define data where "data = [FIELD_COUNT \<mapsto> IntValue (count sub_second_state),
               FIELD_MOVING_AVG_SHORT \<mapsto> FloatValue (moving_avg_short sub_second_state),
               FIELD_MOVING_AVG_LONG \<mapsto> FloatValue (moving_avg_long sub_second_state),
               FIELD_TIMESTAMP \<mapsto> IntValue 32503680001]"
  have ts: "timestamp sub_second_state = Some 32503680000999999"
    by (simp add: sub_second_state_def)
  have "int_of_float (datetime_timestamp 32503680000999999) = Inr 32503680001"
    by (simp add: datetime_timestamp_year_3000 int_of_float_def float_trunc_def)
  then have w: "to_redis_dict sub_second_state = Inr data"
    by (simp add: to_redis_dict_def ts data_def)
  have n: "data FIELD_TIMESTAMP = Some (IntValue 32503680001)"
    by (simp add: data_def)
  have "from_redis_dict data =
      Inr \<lparr>timestamp = Some (32503680001 * 1000000), count = count sub_second_state,
           moving_avg_short = moving_avg_short sub_second_state,
           moving_avg_long = moving_avg_long sub_second_state\<rparr>"
    using to_redis_dict_fields [OF w] n
    by (intro from_redis_dict_written(2)) (simp_all add: MIN_SECONDS_def MAX_SECONDS_def)
  then have "round_trip sub_second_state =
      Inr (sub_second_state\<lparr>timestamp := Some 32503680001000000\<rparr>)"
    by (simp add: round_trip_def bind_def w)
  moreover have "valid_datetime 32503680000999999"
    by (simp add: valid_datetime_def MIN_SECONDS_def MAX_SECONDS_def)
  moreover have "truncate_to_seconds 32503680000999999 = 32503680000000000"
    by (simp add: truncate_to_seconds_def truncated_seconds_def)
  ultimately show ?thesis
    using ts by simp
qed

text \<open>
  C7. \<^verbatim>\<open>from_redis_dict\<close> raises exactly when the count, the short or the long average is
  missing or cannot be converted by \<^verbatim>\<open>int\<close> or \<^verbatim>\<open>float\<close>, or the timestamp key holds a value
  other than \<^verbatim>\<open>None\<close> that \<^verbatim>\<open>int\<close> cannot convert to a second of the years 1 to 9999.  What
  it raises is the exception of the first operation that fails, in the order timestamp,
  count, short average, long average: \<^verbatim>\<open>KeyError\<close> with the key for a missing count or
  average, \<^verbatim>\<open>TypeError\<close>, \<^verbatim>\<open>ValueError\<close> or \<^verbatim>\<open>OverflowError\<close> from \<^verbatim>\<open>int\<close> and \<^verbatim>\<open>float\<close>, and
  the range error of \<^verbatim>\<open>fromtimestamp\<close>.  A timestamp key that is missing or holds \<^verbatim>\<open>None\<close> is
  not an error and gives the timestamp \<^verbatim>\<open>None\<close>.
\<close>

theorem from_redis_dict_raises_iff:
  "(raises (from_redis_dict data) \<longleftrightarrow>
      timestamp_unparsable (data FIELD_TIMESTAMP)
      \<or> missing_or_unparsable py_int (data FIELD_COUNT)
      \<or> missing_or_unparsable py_float (data FIELD_MOVING_AVG_SHORT)
      \<or> missing_or_unparsable py_float (data FIELD_MOVING_AVG_LONG))
   \<and> (from_redis_dict data = Inl e \<longleftrightarrow> first_failure data = Some e)
   \<and> (\<not> timestamp_unparsable (dc FIELD_TIMESTAMP) \<and> dc FIELD_COUNT = None \<longrightarrow>
        from_redis_dict dc = Inl (KeyError FIELD_COUNT))
   \<and> (\<not> timestamp_unparsable (ds FIELD_TIMESTAMP)
        \<and> \<not> missing_or_unparsable py_int (ds FIELD_COUNT)
        \<and> ds FIELD_MOVING_AVG_SHORT = None \<longrightarrow>
        from_redis_dict ds = Inl (KeyError FIELD_MOVING_AVG_SHORT))
   \<and> (\<not> timestamp_unparsable (dl FIELD_TIMESTAMP)
        \<and> \<not> missing_or_unparsable py_int (dl FIELD_COUNT)
        \<and> \<not> missing_or_unparsable py_float (dl FIELD_MOVING_AVG_SHORT)
        \<and> dl FIELD_MOVING_AVG_LONG = None \<longrightarrow>
        from_redis_dict dl = Inl (KeyError FIELD_MOVING_AVG_LONG))
   \<and> ((dn FIELD_TIMESTAMP = None \<or> dn FIELD_TIMESTAMP = Some NoneValue)
        \<and> from_redis_dict dn = Inr s \<longrightarrow> timestamp s = None)
   \<and> (py_int vi = Inl ei \<longrightarrow> ei = TypeError \<or> ei = ValueError \<or> ei = OverflowError)
   \<and> (py_float vf = Inl ef \<longrightarrow> ef = TypeError \<or> ef = ValueError \<or> ef = OverflowError)
   \<and> (datetime_fromtimestamp n = Inl er \<longrightarrow> er = RangeError)"
proof (intro conjI impI)
  show "raises (from_redis_dict data) \<longleftrightarrow>
      timestamp_unparsable (data FIELD_TIMESTAMP)
      \<or> missing_or_unparsable py_int (data FIELD_COUNT)
      \<or> missing_or_unparsable py_float (data FIELD_MOVING_AVG_SHORT)
      \<or> missing_or_unparsable py_float (data FIELD_MOVING_AVG_LONG)"
    unfolding from_redis_dict_def raises_bind4 timestamp_step_raises raises_getitem by simp
next
  show "from_redis_dict data = Inl e \<longleftrightarrow> first_failure data = Some e"
    by (rule from_redis_dict_error)
next
  assume "\<not> timestamp_unparsable (dc FIELD_TIMESTAMP) \<and> dc FIELD_COUNT = None"
  then have "timestamp_error dc = None"
    and "field_error py_int FIELD_COUNT dc = Some (KeyError FIELD_COUNT)"
    by (simp_all add: no_failure missing_key_error)
  then have "first_failure dc = Some (KeyError FIELD_COUNT)"
    by (simp add: first_failure_def)
  then show "from_redis_dict dc = Inl (KeyError FIELD_COUNT)"
    by (simp add: from_redis_dict_error)
next
  assume "\<not> timestamp_unparsable (ds FIELD_TIMESTAMP)
        \<and> \<not> missing_or_unparsable py_int (ds FIELD_COUNT)
        \<and> ds FIELD_MOVING_AVG_SHORT = None"
  then have "timestamp_error ds = None"
    and "field_error py_int FIELD_COUNT ds = None"
    and "field_error py_float FIELD_MOVING_AVG_SHORT ds = Some (KeyError FIELD_MOVING_AVG_SHORT)"
    by (simp_all add: no_failure missing_key_error)
  then have "first_failure ds = Some (KeyError FIELD_MOVING_AVG_SHORT)"
    by (simp add: first_failure_def)
  then show "from_redis_dict ds = Inl (KeyError FIELD_MOVING_AVG_SHORT)"
    by (simp add: from_redis_dict_error)
next
  assume "\<not> timestamp_unparsable (dl FIELD_TIMESTAMP)
        \<and> \<not> missing_or_unparsable py_int (dl FIELD_COUNT)
        \<and> \<not> missing_or_unparsable py_float (dl FIELD_MOVING_AVG_SHORT)
        \<and> dl FIELD_MOVING_AVG_LONG = None"
  then have "timestamp_error dl = None"
    and "field_error py_int FIELD_COUNT dl = None"
    and "field_error py_float FIELD_MOVING_AVG_SHORT dl = None"
    and "field_error py_float FIELD_MOVING_AVG_LONG dl = Some (KeyError FIELD_MOVING_AVG_LONG)"
    by (simp_all add: no_failure missing_key_error)
  then have "first_failure dl = Some (KeyError FIELD_MOVING_AVG_LONG)"
    by (simp add: first_failure_def)
  then show "from_redis_dict dl = Inl (KeyError FIELD_MOVING_AVG_LONG)"
    by (simp add: from_redis_dict_error)
next
  assume "(dn FIELD_TIMESTAMP = None \<or> dn FIELD_TIMESTAMP = Some NoneValue)
        \<and> from_redis_dict dn = Inr s"
  then show "timestamp s = None"
    by (auto simp: from_redis_dict_def dict_get_def bind_def split: sum.splits)
next
  assume "py_int vi = Inl ei"
  then show "ei = TypeError \<or> ei = ValueError \<or> ei = OverflowError"
    by (rule conversion_errors)
next
  assume "py_float vf = Inl ef"
  then show "ef = TypeError \<or> ef = ValueError \<or> ef = OverflowError"
    by (rule conversion_errors)
next
  assume "datetime_fromtimestamp n = Inl er"
  then show "er = RangeError"
    by (rule conversion_errors)
qed

theorem from_redis_dict_raises_iff_witness:
  "from_redis_dict Map.empty = Inl (KeyError ''C'')
   \<and> from_redis_dict missing_short_dict = Inl (KeyError ''S'')
   \<and> from_redis_dict missing_long_dict = Inl (KeyError ''L'')
   \<and> raises (from_redis_dict missing_short_dict)
   \<and> missing_or_unparsable py_float (missing_short_dict FIELD_MOVING_AVG_SHORT)
   \<and> none_timestamp_dict FIELD_TIMESTAMP = Some NoneValue
   \<and> from_redis_dict none_timestamp_dict =
       Inr \<lparr>timestamp = None, count = 5, moving_avg_short = Finite 1.5, moving_avg_long = Finite 2\<rparr>
   \<and> py_int (StrValue ''abc'') = Inl ValueError
   \<and> py_float NoneValue = Inl TypeError
   \<and> datetime_fromtimestamp 253402300800 = Inl RangeError"
proof -
  let ?s = "\<lparr>timestamp = None, count = 5, moving_avg_short = Finite 1.5, moving_avg_long = Finite 2\<rparr>"
  note inst = from_redis_dict_raises_iff
    [where data = missing_short_dict and e = "KeyError ''S''" and dc = Map.empty
      and ds = missing_short_dict and dl = missing_long_dict and dn = none_timestamp_dict
      and s = ?s and vi = "StrValue ''abc''" and ei = ValueError and vf = NoneValue
      and ef = TypeError and n = 253402300800 and er = RangeError]
  have int5: "\<not> missing_or_unparsable py_int (Some (StrValue ''5''))"
    and float15: "\<not> missing_or_unparsable py_float (Some (StrValue ''1.5''))"
    by (simp_all add: missing_or_unparsable_def raises_def py_int_str_5 py_float_str_1_5)
  have hc: "\<not> timestamp_unparsable (Map.empty FIELD_TIMESTAMP) \<and> Map.empty FIELD_COUNT = None"
    by (simp add: timestamp_unparsable_def)
  have hs: "\<not> timestamp_unparsable (missing_short_dict FIELD_TIMESTAMP)
        \<and> \<not> missing_or_unparsable py_int (missing_short_dict FIELD_COUNT)
        \<and> missing_short_dict FIELD_MOVING_AVG_SHORT = None"
    by (simp add: example_dict_fields timestamp_unparsable_def int5)
  have hl: "\<not> timestamp_unparsable (missing_long_dict FIELD_TIMESTAMP)
        \<and> \<not> missing_or_unparsable py_int (missing_long_dict FIELD_COUNT)
        \<and> \<not> missing_or_unparsable py_float (missing_long_dict FIELD_MOVING_AVG_SHORT)
        \<and> missing_long_dict FIELD_MOVING_AVG_LONG = None"
    by (simp add: example_dict_fields timestamp_unparsable_def int5 float15)
  have h2: "from_redis_dict none_timestamp_dict = Inr ?s"
    using from_redis_dict_result(1)
      [OF example_dict_fields(2) py_int_str_5 example_dict_fields(3) py_float_str_1_5
        example_dict_fields(4) py_float_str_2_0]
    by (simp add: example_dict_fields)
  have h3: "py_int (StrValue ''abc'') = Inl ValueError"
    by (rule py_int_str_abc)
  have h4: "py_float NoneValue = Inl TypeError"
    by (simp add: py_float_def)
  have h5: "datetime_fromtimestamp 253402300800 = Inl RangeError"
    by (simp add: datetime_fromtimestamp_def MIN_SECONDS_def MAX_SECONDS_def)
  have h6: "none_timestamp_dict FIELD_TIMESTAMP = Some NoneValue"
    by (simp add: example_dict_fields)
  have a: "from_redis_dict Map.empty = Inl (KeyError FIELD_COUNT)"
    and b: "from_redis_dict missing_short_dict = Inl (KeyError FIELD_MOVING_AVG_SHORT)"
    and c: "from_redis_dict missing_long_dict = Inl (KeyError FIELD_MOVING_AVG_LONG)"
    using inst hc hs hl by blast+
  have d: "timestamp ?s = None"
    using inst h2 h6 by blast
  have h7: "missing_or_unparsable py_float (missing_short_dict FIELD_MOVING_AVG_SHORT)"
    by (simp add: example_dict_fields missing_or_unparsable_def)
  have keys: "from_redis_dict Map.empty = Inl (KeyError ''C'')"
    "from_redis_dict missing_short_dict = Inl (KeyError ''S'')"
    "from_redis_dict missing_long_dict = Inl (KeyError ''L'')"
    using a b c by (simp_all add: field_defs)
  have h8: "raises (from_redis_dict missing_short_dict)"
    by (simp add: keys raises_def)
  show ?thesis
    using keys d h2 h3 h4 h5 h6 h7 h8 by simp
qed

text \<open>
  C7, as it is stated, fails on a mapping whose count and averages are present and parse and
  whose timestamp is the string \<^verbatim>\<open>abc\<close>: \<^verbatim>\<open>int\<close> raises \<^verbatim>\<open>ValueError\<close>.
\<close>

theorem from_redis_dict_bad_timestamp:
  "\<not> missing_or_unparsable py_int (bad_timestamp_dict FIELD_COUNT)
   \<and> \<not> missing_or_unparsable py_float (bad_timestamp_dict FIELD_MOVING_AVG_SHORT)
   \<and> \<not> missing_or_unparsable py_float (bad_timestamp_dict FIELD_MOVING_AVG_LONG)
   \<and> from_redis_dict bad_timestamp_dict = Inl ValueError"
proof -
  have "first_failure bad_timestamp_dict = Some ValueError"
    by (simp add: first_failure_def timestamp_error_def bad_timestamp_dict_fields py_int_str_abc)
  then have "from_redis_dict bad_timestamp_dict = Inl ValueError"
    by (simp add: from_redis_dict_error)
  then show ?thesis
    by (simp add: bad_timestamp_dict_fields missing_or_unparsable_def raises_def
        py_float_str_1_5 py_float_str_2_0 py_int_str_5)
qed

text \<open>
  C10. \<^verbatim>\<open>from_redis_dict\<close> accepts string and numeric encodings of the fields: it returns a
  state exactly when \<^verbatim>\<open>C\<close>, \<^verbatim>\<open>S\<close> and \<^verbatim>\<open>L\<close> are present, \<^verbatim>\<open>int\<close> converts the value of
  \<^verbatim>\<open>C\<close>, \<^verbatim>\<open>float\<close> converts the values of \<^verbatim>\<open>S\<close> and \<^verbatim>\<open>L\<close>, and \<^verbatim>\<open>T\<close> is missing, holds
  \<^verbatim>\<open>None\<close>, or holds a value that \<^verbatim>\<open>int\<close> and \<^verbatim>\<open>fromtimestamp\<close> convert; the state it returns
  has exactly the converted values as its fields.  The mapping with \<^verbatim>\<open>C = "5"\<close>,
  \<^verbatim>\<open>S = "1.5"\<close>, \<^verbatim>\<open>L = "2.0"\<close> gives the count 5 and the averages 1.5 and 2.0, and a mapping
  with a \<^verbatim>\<open>bytes\<close> timestamp and numeric fields is read as well.
\<close>

theorem from_redis_dict_coerces:
  "from_redis_dict string_dict =
     Inr \<lparr>timestamp = None, count = 5, moving_avg_short = Finite 1.5, moving_avg_long = Finite 2\<rparr>
   \<and> from_redis_dict mixed_dict =
     Inr \<lparr>timestamp = Some 1700000000000000, count = 5, moving_avg_short = Finite 1.5,
          moving_avg_long = Finite 2\<rparr>
   \<and> (from_redis_dict data = Inr s \<longleftrightarrow>
        (\<exists>c. data FIELD_COUNT = Some c \<and> py_int c = Inr (count s))
      \<and> (\<exists>a. data FIELD_MOVING_AVG_SHORT = Some a \<and> py_float a = Inr (moving_avg_short s))
      \<and> (\<exists>b. data FIELD_MOVING_AVG_LONG = Some b \<and> py_float b = Inr (moving_avg_long s))
      \<and> ((data FIELD_TIMESTAMP = None \<or> data FIELD_TIMESTAMP = Some NoneValue)
            \<and> timestamp s = None
          \<or> (\<exists>ts n t. data FIELD_TIMESTAMP = Some ts \<and> py_int ts = Inr n
                \<and> datetime_fromtimestamp n = Inr t \<and> timestamp s = Some t)))"
proof (intro conjI)
  show "from_redis_dict string_dict =
     Inr \<lparr>timestamp = None, count = 5, moving_avg_short = Finite 1.5, moving_avg_long = Finite 2\<rparr>"
    by (rule from_redis_dict_string_dict)
next
  show "from_redis_dict mixed_dict =
     Inr \<lparr>timestamp = Some 1700000000000000, count = 5, moving_avg_short = Finite 1.5,
          moving_avg_long = Finite 2\<rparr>"
  proof -
    have c: "py_int (IntValue 5) = Inr 5"
      by (simp add: py_int_def)
    have a: "py_float (FloatValue (Finite 1.5)) = Inr (Finite 1.5)"
      by (simp add: py_float_def)
    have t: "datetime_fromtimestamp 1700000000 = Inr 1700000000000000"
      by (simp add: datetime_fromtimestamp_def MIN_SECONDS_def MAX_SECONDS_def)
    show ?thesis
      by (rule from_redis_dict_result(2)
          [OF example_dict_fields(13) c example_dict_fields(14) a example_dict_fields(15)
            py_float_int_2 example_dict_fields(12) py_int_bytes_1700000000 t])
  qed
next
  show "from_redis_dict data = Inr s \<longleftrightarrow>
        (\<exists>c. data FIELD_COUNT = Some c \<and> py_int c = Inr (count s))
      \<and> (\<exists>a. data FIELD_MOVING_AVG_SHORT = Some a \<and> py_float a = Inr (moving_avg_short s))
      \<and> (\<exists>b. data FIELD_MOVING_AVG_LONG = Some b \<and> py_float b = Inr (moving_avg_long s))
      \<and> ((data FIELD_TIMESTAMP = None \<or> data FIELD_TIMESTAMP = Some NoneValue)
            \<and> timestamp s = None
          \<or> (\<exists>ts n t. data FIELD_TIMESTAMP = Some ts \<and> py_int ts = Inr n
                \<and> datetime_fromtimestamp n = Inr t \<and> timestamp s = Some t))"
  proof
    assume a: "from_redis_dict data = Inr s"
    have c: "\<exists>c. data FIELD_COUNT = Some c \<and> py_int c = Inr (count s)"
      using a by (auto simp: from_redis_dict_def dict_get_def bind_def getitem_def Let_def
          split: sum.splits option.splits if_splits)
    have sh: "\<exists>a. data FIELD_MOVING_AVG_SHORT = Some a \<and> py_float a = Inr (moving_avg_short s)"
      using a by (auto simp: from_redis_dict_def dict_get_def bind_def getitem_def Let_def
          split: sum.splits option.splits if_splits)
    have lo: "\<exists>b. data FIELD_MOVING_AVG_LONG = Some b \<and> py_float b = Inr (moving_avg_long s)"
      using a by (auto simp: from_redis_dict_def dict_get_def bind_def getitem_def Let_def
          split: sum.splits option.splits if_splits)
    have ts: "(data FIELD_TIMESTAMP = None \<or> data FIELD_TIMESTAMP = Some NoneValue)
              \<and> timestamp s = None
            \<or> (\<exists>ts n t. data FIELD_TIMESTAMP = Some ts \<and> py_int ts = Inr n
                  \<and> datetime_fromtimestamp n = Inr t \<and> timestamp s = Some t)"
      using a by (auto simp: from_redis_dict_def dict_get_def bind_def getitem_def Let_def
          split: sum.splits option.splits if_splits)
    show "(\<exists>c. data FIELD_COUNT = Some c \<and> py_int c = Inr (count s))
        \<and> (\<exists>a. data FIELD_MOVING_AVG_SHORT = Some a \<and> py_float a = Inr (moving_avg_short s))
        \<and> (\<exists>b. data FIELD_MOVING_AVG_LONG = Some b \<and> py_float b = Inr (moving_avg_long s))
        \<and> ((data FIELD_TIMESTAMP = None \<or> data FIELD_TIMESTAMP = Some NoneValue)
              \<and> timestamp s = None
            \<or> (\<exists>ts n t. data FIELD_TIMESTAMP = Some ts \<and> py_int ts = Inr n
                  \<and> datetime_fromtimestamp n = Inr t \<and> timestamp s = Some t))"
      using c sh lo ts by blast
  next
    assume r: "(\<exists>c. data FIELD_COUNT = Some c \<and> py_int c = Inr (count s))
        \<and> (\<exists>a. data FIELD_MOVING_AVG_SHORT = Some a \<and> py_float a = Inr (moving_avg_short s))
        \<and> (\<exists>b. data FIELD_MOVING_AVG_LONG = Some b \<and> py_float b = Inr (moving_avg_long s))
        \<and> ((data FIELD_TIMESTAMP = None \<or> data FIELD_TIMESTAMP = Some NoneValue)
              \<and> timestamp s = None
            \<or> (\<exists>ts n t. data FIELD_TIMESTAMP = Some ts \<and> py_int ts = Inr n
                  \<and> datetime_fromtimestamp n = Inr t \<and> timestamp s = Some t))"
    then obtain c a b where c: "data FIELD_COUNT = Some c" "py_int c = Inr (count s)"
      and a: "data FIELD_MOVING_AVG_SHORT = Some a" "py_float a = Inr (moving_avg_short s)"
      and b: "data FIELD_MOVING_AVG_LONG = Some b" "py_float b = Inr (moving_avg_long s)"
      by blast
    from r have d: "(data FIELD_TIMESTAMP = None \<or> data FIELD_TIMESTAMP = Some NoneValue)
            \<and> timestamp s = None
          \<or> (\<exists>ts n t. data FIELD_TIMESTAMP = Some ts \<and> py_int ts = Inr n
                \<and> datetime_fromtimestamp n = Inr t \<and> timestamp s = Some t)"
      by simp
    have s_eq: "\<And>x. timestamp s = x \<Longrightarrow>
        \<lparr>timestamp = x, count = count s, moving_avg_short = moving_avg_short s,
         moving_avg_long = moving_avg_long s\<rparr> = s"
      by auto
    from d show "from_redis_dict data = Inr s"
    proof
      assume h: "(data FIELD_TIMESTAMP = None \<or> data FIELD_TIMESTAMP = Some NoneValue)
            \<and> timestamp s = None"
      then have "from_redis_dict data =
          Inr \<lparr>timestamp = None, count = count s, moving_avg_short = moving_avg_short s,
               moving_avg_long = moving_avg_long s\<rparr>"
        by (intro from_redis_dict_result(1) [OF c a b]) simp
      then show ?thesis
        using h s_eq [of None] by simp
    next
      assume "\<exists>ts n t. data FIELD_TIMESTAMP = Some ts \<and> py_int ts = Inr n
                \<and> datetime_fromtimestamp n = Inr t \<and> timestamp s = Some t"
      then obtain ts n t where h: "data FIELD_TIMESTAMP = Some ts" "py_int ts = Inr n"
          "datetime_fromtimestamp n = Inr t" "timestamp s = Some t"
        by blast
      have "from_redis_dict data =
          Inr \<lparr>timestamp = Some t, count = count s, moving_avg_short = moving_avg_short s,
               moving_avg_long = moving_avg_long s\<rparr>"
        by (rule from_redis_dict_result(2) [OF c a b h(1) h(2) h(3)])
      then show ?thesis
        using h(4) s_eq [of "Some t"] by simp
    qed
  qed
qed

theorem from_redis_dict_coerces_witness:
  "from_redis_dict equal_averages_dict =
     Inr \<lparr>timestamp = None, count = 5, moving_avg_short = Finite 1.5, moving_avg_long = Finite 1.5\<rparr>
   \<and> equal_averages_dict FIELD_COUNT = Some (StrValue ''5'')
   \<and> py_int (StrValue ''5'') = Inr 5
   \<and> equal_averages_dict FIELD_MOVING_AVG_SHORT = Some (StrValue ''1.5'')
   \<and> equal_averages_dict FIELD_MOVING_AVG_LONG = Some (StrValue ''1.5'')
   \<and> py_float (StrValue ''1.5'') = Inr (Finite 1.5)
   \<and> equal_averages_dict FIELD_TIMESTAMP = None"
proof -
  let ?s = "\<lparr>timestamp = None, count = 5, moving_avg_short = Finite 1.5,
          moving_avg_long = Finite 1.5\<rparr>"
  have "from_redis_dict equal_averages_dict = Inr ?s"
    using from_redis_dict_coerces [of equal_averages_dict ?s]
    by (simp add: example_dict_fields py_int_str_5 py_float_str_1_5)
  then show ?thesis
    by (simp add: example_dict_fields py_int_str_5 py_float_str_1_5)
qed

end
